theory Spec2Isabelle
  imports Main "HOL-Library.Log_Nat"
begin

section \<open>JavaScript numbers\<close>

text \<open>
  The page works with JavaScript numbers: \<^verbatim>\<open>Number(form.price)\<close>,
  \<^verbatim>\<open>Number(String(row['Total price']).replace('$',''))\<close> and
  \<^verbatim>\<open>Number(row['Quantity'] || 1)\<close>. A number is NaN, an infinity or a finite
  binary64 value, held here as the rational it denotes. The sign of zero is not kept
  (\<open>-0\<close> and \<open>+0\<close> are both \<open>Fin 0\<close>).
\<close>

datatype jsnum = NaN | PosInf | NegInf | Fin rat

text \<open>The exponent of a positive rational: the \<open>e\<close> with \<open>2^e \<le> a < 2^(e+1)\<close>.\<close>

definition ilog2 :: "rat \<Rightarrow> int" where
  "ilog2 a = (case quotient_of a of (p, q) \<Rightarrow>
     (let e0 = bitlen p - bitlen q in if 2 powi e0 \<le> a then e0 else e0 - 1))"

definition roundTiesToEven :: "rat \<Rightarrow> int" where
  "roundTiesToEven q = (let n = \<lfloor>q\<rfloor>; f = q - of_int n in
     if f < 1 / 2 then n else if 1 / 2 < f then n + 1 else if even n then n else n + 1)"

text \<open>
  ECMAScript's conversion of a mathematical value to the Number type: the nearest
  binary64 value, ties to even, with 53 significant bits, the least exponent \<open>-1022\<close>
  (below it the spacing stays \<open>2^-1074\<close>) and infinity from \<open>2^1024\<close> on.
\<close>

definition RoundMVResult :: "rat \<Rightarrow> jsnum" where
  "RoundMVResult x = (if x = 0 then Fin 0 else
     (let a = \<bar>x\<bar>; e = max (ilog2 a) (- 1022); u = 2 powi (e - 52);
          r = of_int (roundTiesToEven (a / u)) * u
      in if 2 ^ 1024 \<le> r then (if x < 0 then NegInf else PosInf)
         else Fin (if x < 0 then - r else r)))"

subsection \<open>StringToNumber\<close>

text \<open>
  \<^verbatim>\<open>Number(s)\<close> on a string: white space is trimmed, the empty string is 0, then
  the text is a decimal literal (optional sign, \<^verbatim>\<open>Infinity\<close>, or digits with an
  optional fraction and exponent) or an unsigned hexadecimal, octal or binary integer
  literal; any other text is NaN.

  A text is held as its UTF-8 bytes, and white space is a matter of characters, so the
  bytes are first read back into code points. A byte that begins no well-formed UTF-8
  sequence is read as the character of its own code, so that a text given by its Latin-1
  bytes is read as well.
\<close>

definition continuationBits :: "char \<Rightarrow> int option" where
  "continuationBits c =
     (let b = (of_char c :: int) in if 128 \<le> b \<and> b \<le> 191 then Some (b - 128) else None)"

fun decodeUTF8 :: "string \<Rightarrow> int list" where
  "decodeUTF8 [] = []"
| "decodeUTF8 (c # cs) =
     (let b = (of_char c :: int);
          c1 = (if 1 \<le> length cs then continuationBits (cs ! 0) else None);
          c2 = (if 2 \<le> length cs then continuationBits (cs ! 1) else None);
          c3 = (if 3 \<le> length cs then continuationBits (cs ! 2) else None);
          two = (case c1 of
                   Some x \<Rightarrow> if 194 \<le> b \<and> b \<le> 223 then Some ((b - 192) * 64 + x) else None
                 | None \<Rightarrow> None);
          three = (case (c1, c2) of
                     (Some x, Some y) \<Rightarrow>
                       (let cp = (b - 224) * 4096 + x * 64 + y in
                        if 224 \<le> b \<and> b \<le> 239 \<and> 2048 \<le> cp
                           \<and> \<not> (55296 \<le> cp \<and> cp \<le> 57343)
                        then Some cp else None)
                   | _ \<Rightarrow> None);
          four = (case (c1, c2, c3) of
                    (Some x, Some y, Some z) \<Rightarrow>
                      (let cp = (b - 240) * 262144 + x * 4096 + y * 64 + z in
                       if 240 \<le> b \<and> b \<le> 244 \<and> 65536 \<le> cp \<and> cp \<le> 1114111
                       then Some cp else None)
                  | _ \<Rightarrow> None)
      in case two of
           Some cp \<Rightarrow> cp # decodeUTF8 (drop 1 cs)
         | None \<Rightarrow>
             (case three of
                Some cp \<Rightarrow> cp # decodeUTF8 (drop 2 cs)
              | None \<Rightarrow>
                  (case four of
                     Some cp \<Rightarrow> cp # decodeUTF8 (drop 3 cs)
                   | None \<Rightarrow> b # decodeUTF8 cs)))"

text \<open>
  ECMAScript's \<open>StrWhiteSpaceChar\<close>, by code point: the white space characters TAB, VT,
  FF, U+FEFF and every space separator (U+0020, U+00A0, U+1680, U+2000 to U+200A, U+202F,
  U+205F, U+3000), and the line terminators LF, CR, U+2028 and U+2029.
\<close>

definition isStrWhiteSpaceChar :: "int \<Rightarrow> bool" where
  "isStrWhiteSpaceChar cp =
     (cp \<in> {9, 10, 11, 12, 13, 32, 160, 5760, 8232, 8233, 8239, 8287, 12288, 65279}
      \<or> (8192 \<le> cp \<and> cp \<le> 8202))"

definition trimString :: "int list \<Rightarrow> int list" where
  "trimString s =
     rev (dropWhile isStrWhiteSpaceChar (rev (dropWhile isStrWhiteSpaceChar s)))"

definition isDecimalDigit :: "char \<Rightarrow> bool" where
  "isDecimalDigit c = (48 \<le> (of_char c :: int) \<and> (of_char c :: int) \<le> 57)"

text \<open>The value of a digit in a base up to 16; \<open>None\<close> for any other character.\<close>

definition digitValue :: "int \<Rightarrow> char \<Rightarrow> int option" where
  "digitValue base c = (let n = (of_char c :: int);
       v = (if 48 \<le> n \<and> n \<le> 57 then Some (n - 48)
            else if 97 \<le> n \<and> n \<le> 102 then Some (n - 87)
            else if 65 \<le> n \<and> n \<le> 70 then Some (n - 55)
            else None)
     in case v of None \<Rightarrow> None | Some d \<Rightarrow> if d < base then Some d else None)"

fun digitsValue :: "int \<Rightarrow> int \<Rightarrow> string \<Rightarrow> int option" where
  "digitsValue base acc [] = Some acc"
| "digitsValue base acc (c # cs) =
     (case digitValue base c of
        None \<Rightarrow> None
      | Some d \<Rightarrow> digitsValue base (acc * base + d) cs)"

text \<open>A non-empty run of digits of the base, as a number.\<close>

definition parseDigits :: "int \<Rightarrow> string \<Rightarrow> int option" where
  "parseDigits base s = (if s = [] then None else digitsValue base 0 s)"

definition decimalValue :: "string \<Rightarrow> int" where
  "decimalValue s = (case digitsValue 10 0 s of None \<Rightarrow> 0 | Some n \<Rightarrow> n)"

text \<open>The exponent part after \<^verbatim>\<open>e\<close> or \<^verbatim>\<open>E\<close>: an optional sign and digits.\<close>

definition parseExponent :: "string \<Rightarrow> int option" where
  "parseExponent s =
     (case s of
        [] \<Rightarrow> None
      | c # t \<Rightarrow>
          if c = CHR ''-'' then map_option uminus (parseDigits 10 t)
          else if c = CHR ''+'' then parseDigits 10 t
          else parseDigits 10 s)"

text \<open>
  An unsigned decimal literal: \<^verbatim>\<open>digits\<close>, \<^verbatim>\<open>digits.\<close>,
  \<^verbatim>\<open>digits.digits\<close> or \<^verbatim>\<open>.digits\<close>, each with an optional exponent.
  The result is the mathematical value, before rounding.
\<close>

definition parseUnsignedDecimal :: "string \<Rightarrow> rat option" where
  "parseUnsignedDecimal s =
     (let ip = takeWhile isDecimalDigit s; r1 = dropWhile isDecimalDigit s;
          fp = (case r1 of [] \<Rightarrow> [] | c # t \<Rightarrow>
                  if c = CHR ''.'' then takeWhile isDecimalDigit t else []);
          r2 = (case r1 of [] \<Rightarrow> [] | c # t \<Rightarrow>
                  if c = CHR ''.'' then dropWhile isDecimalDigit t else r1);
          mant = of_int (decimalValue ip) + of_int (decimalValue fp) / 10 ^ length fp
      in if ip = [] \<and> fp = [] then None
         else case r2 of
                [] \<Rightarrow> Some mant
              | c # t \<Rightarrow>
                  if c = CHR ''e'' \<or> c = CHR ''E''
                  then map_option (\<lambda>e. mant * 10 powi e) (parseExponent t)
                  else None)"

definition parseStrUnsignedDecimalLiteral :: "string \<Rightarrow> jsnum option" where
  "parseStrUnsignedDecimalLiteral s =
     (if s = ''Infinity'' then Some PosInf
      else map_option RoundMVResult (parseUnsignedDecimal s))"

definition negate :: "jsnum \<Rightarrow> jsnum" where
  "negate x = (case x of NaN \<Rightarrow> NaN | PosInf \<Rightarrow> NegInf | NegInf \<Rightarrow> PosInf | Fin r \<Rightarrow> Fin (- r))"

definition parseNonDecimal :: "string \<Rightarrow> jsnum option" where
  "parseNonDecimal s =
     (case s of
        z # x # t \<Rightarrow>
          if z \<noteq> CHR ''0'' then None
          else if x = CHR ''x'' \<or> x = CHR ''X''
            then map_option (\<lambda>n. RoundMVResult (of_int n)) (parseDigits 16 t)
          else if x = CHR ''o'' \<or> x = CHR ''O''
            then map_option (\<lambda>n. RoundMVResult (of_int n)) (parseDigits 8 t)
          else if x = CHR ''b'' \<or> x = CHR ''B''
            then map_option (\<lambda>n. RoundMVResult (of_int n)) (parseDigits 2 t)
          else None
      | _ \<Rightarrow> None)"

text \<open>The numeric literal that is left after trimming.\<close>

definition parseStrNumericLiteral :: "string \<Rightarrow> jsnum" where
  "parseStrNumericLiteral s =
     (case parseNonDecimal s of
        Some v \<Rightarrow> v
      | None \<Rightarrow>
          (case s of
             [] \<Rightarrow> NaN
           | c # t \<Rightarrow>
               if c = CHR ''-''
               then (case parseStrUnsignedDecimalLiteral t of
                       None \<Rightarrow> NaN | Some v \<Rightarrow> negate v)
               else if c = CHR ''+''
               then (case parseStrUnsignedDecimalLiteral t of
                       None \<Rightarrow> NaN | Some v \<Rightarrow> v)
               else (case parseStrUnsignedDecimalLiteral s of
                       None \<Rightarrow> NaN | Some v \<Rightarrow> v)))"

text \<open>
  Every character of a numeric literal is an ASCII character: a text that keeps any
  other character after trimming is NaN.
\<close>

definition StringToNumber :: "string \<Rightarrow> jsnum" where
  "StringToNumber str =
     (let cps = trimString (decodeUTF8 str) in
      if cps = [] then Fin 0
      else if list_ex (\<lambda>cp. 128 \<le> cp) cps then NaN
      else parseStrNumericLiteral (map char_of cps))"

section \<open>JavaScript dates\<close>

text \<open>
  The page builds dates with \<^verbatim>\<open>new Date()\<close>, \<^verbatim>\<open>new Date(text)\<close> and
  \<^verbatim>\<open>new Date(year, month, day)\<close>, reads \<^verbatim>\<open>getFullYear()\<close> and
  \<^verbatim>\<open>getMonth()\<close>, and writes \<^verbatim>\<open>toISOString()\<close>. A Date holds a time
  value: milliseconds since 1970-01-01T00:00:00Z, or NaN (\<open>None\<close>) for an invalid date.
  The functions below are ECMAScript's, with their names.
\<close>

type_synonym timevalue = "int option"

definition msPerDay :: int where "msPerDay = 86400000"
definition msPerHour :: int where "msPerHour = 3600000"
definition msPerMinute :: int where "msPerMinute = 60000"
definition msPerSecond :: int where "msPerSecond = 1000"

definition Day :: "int \<Rightarrow> int" where
  "Day t = t div msPerDay"

definition TimeWithinDay :: "int \<Rightarrow> int" where
  "TimeWithinDay t = t mod msPerDay"

definition DaysInYear :: "int \<Rightarrow> int" where
  "DaysInYear y =
     (if y mod 4 \<noteq> 0 then 365
      else if y mod 100 \<noteq> 0 then 366
      else if y mod 400 \<noteq> 0 then 365
      else 366)"

definition DayFromYear :: "int \<Rightarrow> int" where
  "DayFromYear y =
     365 * (y - 1970) + (y - 1969) div 4 - (y - 1901) div 100 + (y - 1601) div 400"

definition TimeFromYear :: "int \<Rightarrow> int" where
  "TimeFromYear y = msPerDay * DayFromYear y"

text \<open>
  The year of a day number: ECMAScript's largest \<open>y\<close> with \<open>DayFromYear y \<le> d\<close>,
  computed from the mean year length (146097 days in 400 years) and one correction step.
\<close>

definition YearFromDay :: "int \<Rightarrow> int" where
  "YearFromDay d =
     (let y = 1970 + (400 * d) div 146097 in
      if d < DayFromYear y then y - 1
      else if DayFromYear (y + 1) \<le> d then y + 1
      else y)"

definition YearFromTime :: "int \<Rightarrow> int" where
  "YearFromTime t = YearFromDay (Day t)"

definition InLeapYear :: "int \<Rightarrow> int" where
  "InLeapYear t = (if DaysInYear (YearFromTime t) = 366 then 1 else 0)"

definition DayWithinYear :: "int \<Rightarrow> int" where
  "DayWithinYear t = Day t - DayFromYear (YearFromTime t)"

definition MonthFromTime :: "int \<Rightarrow> int" where
  "MonthFromTime t =
     (let d = DayWithinYear t; l = InLeapYear t in
      if d < 31 then 0
      else if d < 59 + l then 1
      else if d < 90 + l then 2
      else if d < 120 + l then 3
      else if d < 151 + l then 4
      else if d < 181 + l then 5
      else if d < 212 + l then 6
      else if d < 243 + l then 7
      else if d < 273 + l then 8
      else if d < 304 + l then 9
      else if d < 334 + l then 10
      else 11)"

definition DateFromTime :: "int \<Rightarrow> int" where
  "DateFromTime t =
     (let d = DayWithinYear t; l = InLeapYear t; m = MonthFromTime t in
      if m = 0 then d + 1
      else if m = 1 then d - 30
      else if m = 2 then d - 58 - l
      else if m = 3 then d - 89 - l
      else if m = 4 then d - 119 - l
      else if m = 5 then d - 150 - l
      else if m = 6 then d - 180 - l
      else if m = 7 then d - 211 - l
      else if m = 8 then d - 242 - l
      else if m = 9 then d - 272 - l
      else if m = 10 then d - 303 - l
      else d - 333 - l)"

definition HourFromTime :: "int \<Rightarrow> int" where
  "HourFromTime t = (t div msPerHour) mod 24"

definition MinFromTime :: "int \<Rightarrow> int" where
  "MinFromTime t = (t div msPerMinute) mod 60"

definition SecFromTime :: "int \<Rightarrow> int" where
  "SecFromTime t = (t div msPerSecond) mod 60"

definition msFromTime :: "int \<Rightarrow> int" where
  "msFromTime t = t mod msPerSecond"

definition MakeTime :: "int \<Rightarrow> int \<Rightarrow> int \<Rightarrow> int \<Rightarrow> int" where
  "MakeTime hour minute sec ms =
     hour * msPerHour + minute * msPerMinute + sec * msPerSecond + ms"

text \<open>The number of days of the year \<open>y\<close> before its month \<open>m\<close> (0 to 11).\<close>

definition daysBeforeMonth :: "int \<Rightarrow> int \<Rightarrow> int" where
  "daysBeforeMonth y m =
     (let l = (if DaysInYear y = 366 then 1 else 0) in
      if m = 0 then 0
      else if m = 1 then 31
      else if m = 2 then 59 + l
      else if m = 3 then 90 + l
      else if m = 4 then 120 + l
      else if m = 5 then 151 + l
      else if m = 6 then 181 + l
      else if m = 7 then 212 + l
      else if m = 8 then 243 + l
      else if m = 9 then 273 + l
      else if m = 10 then 304 + l
      else 334 + l)"

text \<open>
  \<open>MakeDay\<close> takes any month and day numbers: the month is carried into the year
  (\<open>-1\<close> is December of the year before) and the day is counted from the first of
  that month (day 0 is the day before it).
\<close>

definition MakeDay :: "int \<Rightarrow> int \<Rightarrow> int \<Rightarrow> int" where
  "MakeDay year month date =
     (let ym = year + month div 12; mn = month mod 12
      in DayFromYear ym + daysBeforeMonth ym mn + date - 1)"

definition MakeDate :: "int \<Rightarrow> int \<Rightarrow> int" where
  "MakeDate day time = day * msPerDay + time"

definition TimeClip :: "int \<Rightarrow> timevalue" where
  "TimeClip t = (if 8640000000000000 < \<bar>t\<bar> then None else Some t)"

subsection \<open>Calendar dates\<close>

text \<open>What a clock in the zone of a local time value shows: year, month (0 to 11), day of
  the month, hour, minute, second and millisecond.\<close>

definition calendarFields :: "int \<Rightarrow> int \<times> int \<times> int \<times> int \<times> int \<times> int \<times> int" where
  "calendarFields t = (YearFromTime t, MonthFromTime t, DateFromTime t, HourFromTime t,
     MinFromTime t, SecFromTime t, msFromTime t)"

text \<open>The calendar month before month \<open>m\<close> (0 to 11) of year \<open>y\<close>.\<close>

definition previousMonth :: "int \<times> int \<Rightarrow> int \<times> int" where
  "previousMonth ym = (case ym of (y, m) \<Rightarrow> if m = 0 then (y - 1, 11) else (y, m - 1))"

text \<open>The number of days of month \<open>m\<close> (0 to 11) of year \<open>y\<close>.\<close>

definition DaysInMonth :: "int \<Rightarrow> int \<Rightarrow> int" where
  "DaysInMonth y m =
     (if m = 1 then (if DaysInYear y = 366 then 29 else 28)
      else if m = 3 \<or> m = 5 \<or> m = 8 \<or> m = 10 then 30
      else 31)"

text \<open>A real calendar day: a month from 0 to 11 and a day of that month.\<close>

definition validDate :: "int \<Rightarrow> int \<Rightarrow> int \<Rightarrow> bool" where
  "validDate y m d = (0 \<le> m \<and> m \<le> 11 \<and> 1 \<le> d \<and> d \<le> DaysInMonth y m)"

subsection \<open>Local time\<close>

text \<open>
  The host's time zone is a parameter \<open>tza\<close>: ECMAScript's \<open>LocalTZA(t, isUTC)\<close>, the
  offset of local time from UTC in milliseconds at the UTC time \<open>t\<close> (\<open>isUTC\<close> true) or at
  the local time \<open>t\<close> (\<open>isUTC\<close> false).
\<close>

type_synonym localTZA = "int \<Rightarrow> bool \<Rightarrow> int"

definition LocalTime :: "localTZA \<Rightarrow> int \<Rightarrow> int" where
  "LocalTime tza t = t + tza t True"

definition UTC :: "localTZA \<Rightarrow> int \<Rightarrow> int" where
  "UTC tza t = t - tza t False"

definition getFullYear :: "localTZA \<Rightarrow> int \<Rightarrow> int" where
  "getFullYear tza t = YearFromTime (LocalTime tza t)"

definition getMonth :: "localTZA \<Rightarrow> int \<Rightarrow> int" where
  "getMonth tza t = MonthFromTime (LocalTime tza t)"

text \<open>
  \<^verbatim>\<open>new Date(year, month, date)\<close> on integers: local midnight of that day. A year from
  0 to 99 means 1900 to 1999.
\<close>

definition newDateYMD :: "localTZA \<Rightarrow> int \<Rightarrow> int \<Rightarrow> int \<Rightarrow> timevalue" where
  "newDateYMD tza y m dt =
     (let yr = (if 0 \<le> y \<and> y \<le> 99 then 1900 + y else y);
          finalDate = MakeDate (MakeDay yr m dt) (MakeTime 0 0 0 0)
      in TimeClip (UTC tza finalDate))"

subsection \<open>toISOString\<close>

datatype js_error = RangeError string

definition digitChar :: "int \<Rightarrow> char" where
  "digitChar d = char_of (48 + d)"

text \<open>The last \<open>w\<close> decimal digits of \<open>n\<close>, padded with zeros.\<close>

primrec padDigits :: "nat \<Rightarrow> int \<Rightarrow> string" where
  "padDigits 0 n = []"
| "padDigits (Suc w) n = padDigits w (n div 10) @ [digitChar (n mod 10)]"

definition yearString :: "int \<Rightarrow> string" where
  "yearString y =
     (if 0 \<le> y \<and> y \<le> 9999 then padDigits 4 y
      else if y < 0 then CHR ''-'' # padDigits 6 (- y)
      else CHR ''+'' # padDigits 6 y)"

text \<open>
  The ISO text of a time value: \<^verbatim>\<open>YYYY-MM-DDTHH:mm:ss.sssZ\<close>, in UTC.
\<close>

definition formatISO :: "int \<Rightarrow> string" where
  "formatISO t =
     yearString (YearFromTime t) @ ''-'' @ padDigits 2 (MonthFromTime t + 1) @ ''-''
       @ padDigits 2 (DateFromTime t) @ ''T'' @ padDigits 2 (HourFromTime t) @ '':''
       @ padDigits 2 (MinFromTime t) @ '':'' @ padDigits 2 (SecFromTime t) @ ''.''
       @ padDigits 3 (msFromTime t) @ ''Z''"

text \<open>\<^verbatim>\<open>toISOString()\<close> throws a RangeError on an invalid date.\<close>

definition toISOString :: "timevalue \<Rightarrow> js_error + string" where
  "toISOString tv =
     (case tv of
        None \<Rightarrow> Inl (RangeError ''Invalid time value'')
      | Some t \<Rightarrow> Inr (formatISO t))"

subsection \<open>Parsing\<close>

text \<open>
  \<^verbatim>\<open>Date.parse\<close> reads ECMAScript's date-time string format and may fall back to
  formats of the host's own. The date-only forms \<^verbatim>\<open>YYYY\<close>, \<^verbatim>\<open>YYYY-MM\<close> and
  \<^verbatim>\<open>YYYY-MM-DD\<close> of a real calendar day are read here, as UTC midnight; every
  other text (the forms with a time of day, which depend on the time zone, the expanded
  years, and the host's formats) is left to the parameter \<open>hostParse\<close>, which returns
  the time value or \<open>None\<close> for NaN.
\<close>

definition isoDateOnly :: "string \<Rightarrow> (int \<times> int \<times> int) option" where
  "isoDateOnly s =
     (let ys = take 4 s; r = drop 4 s in
      if length ys \<noteq> 4 \<or> \<not> list_all isDecimalDigit ys then None
      else if r = [] then Some (decimalValue ys, 1, 1)
      else if length r = 3 \<and> r ! 0 = CHR ''-'' \<and> list_all isDecimalDigit (drop 1 r)
        then Some (decimalValue ys, decimalValue (drop 1 r), 1)
      else if length r = 6 \<and> r ! 0 = CHR ''-'' \<and> r ! 3 = CHR ''-''
              \<and> list_all isDecimalDigit (take 2 (drop 1 r))
              \<and> list_all isDecimalDigit (drop 4 r)
        then Some (decimalValue ys, decimalValue (take 2 (drop 1 r)), decimalValue (drop 4 r))
      else None)"

definition Date_parse :: "(string \<Rightarrow> timevalue) \<Rightarrow> string \<Rightarrow> timevalue" where
  "Date_parse hostParse s =
     (case isoDateOnly s of
        Some (y, m, d) \<Rightarrow>
          if 1 \<le> m \<and> m \<le> 12 \<and> 1 \<le> d \<and> d \<le> DaysInMonth y (m - 1)
          then Some (MakeDate (MakeDay y (m - 1) d) 0)
          else hostParse s
      | None \<Rightarrow> hostParse s)"

text \<open>
  \<^verbatim>\<open>new Date(v)\<close> for \<open>v\<close> a string or \<^verbatim>\<open>undefined\<close> (\<open>None\<close>): a string is
  parsed, \<^verbatim>\<open>undefined\<close> converts to NaN.
\<close>

definition newDateValue :: "(string \<Rightarrow> timevalue) \<Rightarrow> string option \<Rightarrow> timevalue" where
  "newDateValue hostParse v =
     (case v of
        None \<Rightarrow> None
      | Some s \<Rightarrow> (case Date_parse hostParse s of None \<Rightarrow> None | Some t \<Rightarrow> TimeClip t))"

section \<open>The page: src/app/page.tsx\<close>

subsection \<open>Data\<close>

text \<open>
  The objects of the page share their field names: the form state holds \<open>price\<close> as
  the text of its input and \<open>notes'\<close> as text; a record written to the store holds
  \<open>price\<close> as a number, has \<open>notes'\<close> only on the manual path (\<open>None\<close> when the
  object has no such key) and adds \<open>source\<close>.
\<close>

record ('p, 'n) repair_fields =
  item_name :: string
  listing_id :: string
  price :: 'p
  date_sold :: string
  quantity :: jsnum
  notes' :: 'n

type_synonym form_state = "(string, string) repair_fields"

record repair_record = "(jsnum, string option) repair_fields" +
  source :: string

text \<open>The initial value of \<^verbatim>\<open>useState\<close> for the form (lines 14 to 21).\<close>

definition initialForm :: form_state where
  "initialForm = \<lparr>item_name = '''', listing_id = '''', price = '''', date_sold = '''',
     quantity = Fin 1, notes' = ''''\<rparr>"

text \<open>
  The component's state. The rows of the table are what the store returned
  (\<^verbatim>\<open>any[]\<close>), of any type \<open>'r\<close>.
\<close>

record 'r ui_state =
  loading :: bool
  repairs :: "'r list"
  form :: form_state

definition initialState :: "'r ui_state" where
  "initialState = \<lparr>loading = True, repairs = [], form = initialForm\<rparr>"

subsection \<open>The store and the effects of a handler\<close>

text \<open>
  The store, the identity provider and the browser are outside the page. Every awaited
  call is an effect of the handler, in the order the calls are made, and the answer the
  handler receives is an argument of its model. A store answer is the object
  \<^verbatim>\<open>{ data, error }\<close>, each of its two parts possibly \<^verbatim>\<open>null\<close>.
\<close>

record store_error =
  message :: string

record 'r response =
  data :: "'r list option"
  error :: "store_error option"

datatype filter_op = Gte string string | Lte string string

record query =
  table :: string
  columns :: string
  filters :: "filter_op list"
  order_by :: "(string \<times> bool) option"

datatype effect =
    GetSession
  | SignOut
  | Navigate string
  | Alert string
  | ConsoleError "string list"
  | Select query
  | Insert string "repair_record list"
  | Upsert string "repair_record list" "string list"

text \<open>\<^verbatim>\<open>data || []\<close>: an array is truthy, also when it is empty.\<close>

definition dataOrEmpty :: "'r response \<Rightarrow> 'r list" where
  "dataOrEmpty resp = (case data resp of None \<Rightarrow> [] | Some rows \<Rightarrow> rows)"

text \<open>
  \<^verbatim>\<open>supabase.from('repairs').select('*').order('date_sold', { ascending: false })\<close>
\<close>

definition listingQuery :: query where
  "listingQuery = \<lparr>table = ''repairs'', columns = ''*'', filters = [],
     order_by = Some (''date_sold'', False)\<rparr>"

subsection \<open>Session guard and initial load (lines 24 to 45)\<close>

definition init :: "'r ui_state \<Rightarrow> 's option \<Rightarrow> 'r response \<Rightarrow> 'r ui_state \<times> effect list" where
  "init st session resp =
     (case session of
        None \<Rightarrow> (st, [GetSession, Navigate ''/login''])
      | Some _ \<Rightarrow>
          (case error resp of
             Some e \<Rightarrow>
               (st\<lparr>loading := False\<rparr>,
                [GetSession, Select listingQuery, ConsoleError [''Supabase error:'', message e]])
           | None \<Rightarrow>
               (st\<lparr>repairs := dataOrEmpty resp, loading := False\<rparr>,
                [GetSession, Select listingQuery])))"

subsection \<open>Refreshing the table (lines 112 to 119)\<close>

definition refreshRepairs :: "'r ui_state \<Rightarrow> 'r response \<Rightarrow> 'r ui_state \<times> effect list" where
  "refreshRepairs st resp =
     ((case error resp of
         None \<Rightarrow> st\<lparr>repairs := dataOrEmpty resp\<rparr>
       | Some _ \<Rightarrow> st),
      [Select listingQuery])"

subsection \<open>Manual entry (lines 48 to 74 and 162 to 186)\<close>

text \<open>\<^verbatim>\<open>{ ...form, price: Number(form.price), source: 'manual' }\<close>\<close>

definition manualRecord :: "form_state \<Rightarrow> repair_record" where
  "manualRecord f = \<lparr>item_name = item_name f, listing_id = listing_id f,
     price = StringToNumber (price f), date_sold = date_sold f, quantity = quantity f,
     notes' = Some (notes' f), source = ''manual''\<rparr>"

text \<open>
  \<open>insResp\<close> is the store's answer to the insert, \<open>selResp\<close> its answer to the
  listing query of \<^verbatim>\<open>refreshRepairs()\<close>, which is only made after a successful insert.
\<close>

definition handleSubmit ::
  "'r ui_state \<Rightarrow> 'r response \<Rightarrow> 'r response \<Rightarrow> 'r ui_state \<times> effect list" where
  "handleSubmit st insResp selResp =
     (case error insResp of
        Some e \<Rightarrow> (st, [Insert ''repairs'' [manualRecord (form st)], Alert (message e)])
      | None \<Rightarrow>
          (case refreshRepairs (st\<lparr>form := initialForm\<rparr>) selResp of
             (st', effs) \<Rightarrow> (st', Insert ''repairs'' [manualRecord (form st)] # effs)))"

text \<open>The \<^verbatim>\<open>onChange\<close> handlers of the five inputs of the form.\<close>

definition changeItemName :: "'r ui_state \<Rightarrow> string \<Rightarrow> 'r ui_state" where
  "changeItemName st v = st\<lparr>form := (form st)\<lparr>item_name := v\<rparr>\<rparr>"

definition changeListingId :: "'r ui_state \<Rightarrow> string \<Rightarrow> 'r ui_state" where
  "changeListingId st v = st\<lparr>form := (form st)\<lparr>listing_id := v\<rparr>\<rparr>"

definition changePrice :: "'r ui_state \<Rightarrow> string \<Rightarrow> 'r ui_state" where
  "changePrice st v = st\<lparr>form := (form st)\<lparr>price := v\<rparr>\<rparr>"

definition changeDateSold :: "'r ui_state \<Rightarrow> string \<Rightarrow> 'r ui_state" where
  "changeDateSold st v = st\<lparr>form := (form st)\<lparr>date_sold := v\<rparr>\<rparr>"

definition changeNotes :: "'r ui_state \<Rightarrow> string \<Rightarrow> 'r ui_state" where
  "changeNotes st v = st\<lparr>form := (form st)\<lparr>notes' := v\<rparr>\<rparr>"

subsection \<open>CSV import (lines 77 to 109)\<close>

text \<open>
  A parsed row (PapaParse with \<^verbatim>\<open>header: true\<close>) is an object from column names to
  texts; a column the row does not have is \<^verbatim>\<open>undefined\<close> (\<open>None\<close>).
\<close>

type_synonym csv_row = "string \<rightharpoonup> string"

text \<open>\<^verbatim>\<open>!v\<close> is false exactly on a non-empty text.\<close>

definition truthy :: "string option \<Rightarrow> bool" where
  "truthy v = (case v of None \<Rightarrow> False | Some s \<Rightarrow> s \<noteq> [])"

text \<open>The validity gate of line 84: the three required columns are non-empty texts.\<close>

definition gatePasses :: "csv_row \<Rightarrow> bool" where
  "gatePasses row = (truthy (row ''Order number'') \<and> truthy (row ''Item title'')
     \<and> truthy (row ''Total price''))"

text \<open>\<^verbatim>\<open>s.replace(pat, rep)\<close> with a text pattern: the first occurrence only.\<close>

fun replaceFirst :: "string \<Rightarrow> string \<Rightarrow> string \<Rightarrow> string" where
  "replaceFirst pat rep [] = (if pat = [] then rep else [])"
| "replaceFirst pat rep (c # cs) =
     (if take (length pat) (c # cs) = pat then rep @ drop (length pat) (c # cs)
      else c # replaceFirst pat rep cs)"

text \<open>
  The callback of \<^verbatim>\<open>.map\<close> (lines 83 to 94): \<open>Inr None\<close> is \<^verbatim>\<open>return null\<close>,
  \<open>Inl\<close> the exception that \<^verbatim>\<open>toISOString()\<close> throws.
\<close>

definition normalizeRow :: "(string \<Rightarrow> timevalue) \<Rightarrow> csv_row \<Rightarrow> js_error + repair_record option" where
  "normalizeRow hostParse row =
     (if \<not> truthy (row ''Order number'') \<or> \<not> truthy (row ''Item title'')
         \<or> \<not> truthy (row ''Total price'')
      then Inr None
      else case (row ''Order number'', row ''Item title'', row ''Total price'') of
        (Some orderNumber, Some itemTitle, Some totalPrice) \<Rightarrow>
          (case toISOString (newDateValue hostParse (row ''Sale date'')) of
             Inl e \<Rightarrow> Inl e
           | Inr isoText \<Rightarrow>
               Inr (Some \<lparr>item_name = itemTitle, listing_id = orderNumber,
                 price = StringToNumber (replaceFirst ''$'' '''' totalPrice),
                 date_sold = isoText,
                 quantity = (if truthy (row ''Quantity'')
                             then (case row ''Quantity'' of Some q \<Rightarrow> StringToNumber q
                                   | None \<Rightarrow> Fin 1)
                             else Fin 1),
                 notes' = None, source = ''csv''\<rparr>))
      | _ \<Rightarrow> Inr None)"

text \<open>\<^verbatim>\<open>.map(...)\<close> over the rows, in order; the first exception ends it.\<close>

fun mapRows :: "(string \<Rightarrow> timevalue) \<Rightarrow> csv_row list \<Rightarrow> js_error + repair_record option list" where
  "mapRows hostParse [] = Inr []"
| "mapRows hostParse (row # rest) =
     (case normalizeRow hostParse row of
        Inl e \<Rightarrow> Inl e
      | Inr r \<Rightarrow>
          (case mapRows hostParse rest of
             Inl e \<Rightarrow> Inl e
           | Inr rs \<Rightarrow> Inr (r # rs)))"

text \<open>\<^verbatim>\<open>.filter(Boolean)\<close>: the \<^verbatim>\<open>null\<close>s are removed.\<close>

definition filterBoolean :: "'a option list \<Rightarrow> 'a list" where
  "filterBoolean xs = concat (map (\<lambda>x. case x of None \<Rightarrow> [] | Some r \<Rightarrow> [r]) xs)"

text \<open>The constant \<^verbatim>\<open>rows\<close> of the callback (lines 82 to 95).\<close>

definition csvBatch :: "(string \<Rightarrow> timevalue) \<Rightarrow> csv_row list \<Rightarrow> js_error + repair_record list" where
  "csvBatch hostParse results =
     (case mapRows hostParse results of
        Inl e \<Rightarrow> Inl e
      | Inr rs \<Rightarrow> Inr (filterBoolean rs))"

text \<open>
  The \<^verbatim>\<open>complete\<close> callback. \<open>upsResp\<close> is the store's answer to the upsert,
  \<open>selResp\<close> its answer to the listing query made after a successful upsert. An
  exception leaves the callback before any call is made.
\<close>

definition handleCSV ::
  "(string \<Rightarrow> timevalue) \<Rightarrow> 'r ui_state \<Rightarrow> csv_row list \<Rightarrow> 'r response \<Rightarrow> 'r response
     \<Rightarrow> js_error + 'r ui_state \<times> effect list" where
  "handleCSV hostParse st results upsResp selResp =
     (case csvBatch hostParse results of
        Inl e \<Rightarrow> Inl e
      | Inr rows \<Rightarrow>
          (case error upsResp of
             Some e \<Rightarrow>
               Inr (st, [Upsert ''repairs'' rows [''listing_id''], Alert (message e)])
           | None \<Rightarrow>
               (case refreshRepairs st selResp of
                  (st', effs) \<Rightarrow>
                    Inr (st', [Upsert ''repairs'' rows [''listing_id''],
                               Alert ''CSV imported successfully!''] @ effs))))"

subsection \<open>Period filter (lines 122 to 142)\<close>

text \<open>
  \<open>now\<close> is the time value of \<^verbatim>\<open>new Date()\<close>. The three \<^verbatim>\<open>if\<close>s run in
  order, each adding its bounds to the query.
\<close>

definition periodFilters :: "localTZA \<Rightarrow> int \<Rightarrow> string \<Rightarrow> js_error + filter_op list" where
  "periodFilters tza now period =
     (case (if period = ''thisMonth''
            then (case toISOString (newDateYMD tza (getFullYear tza now) (getMonth tza now) 1) of
                    Inl e \<Rightarrow> Inl e
                  | Inr s \<Rightarrow> Inr [Gte ''date_sold'' s])
            else Inr []) of
        Inl e \<Rightarrow> Inl e
      | Inr f1 \<Rightarrow>
     (case (if period = ''lastMonth''
            then (case toISOString (newDateYMD tza (getFullYear tza now) (getMonth tza now - 1) 1) of
                    Inl e \<Rightarrow> Inl e
                  | Inr s \<Rightarrow>
                      (case toISOString (newDateYMD tza (getFullYear tza now) (getMonth tza now) 0) of
                         Inl e \<Rightarrow> Inl e
                       | Inr u \<Rightarrow> Inr [Gte ''date_sold'' s, Lte ''date_sold'' u]))
            else Inr []) of
        Inl e \<Rightarrow> Inl e
      | Inr f2 \<Rightarrow>
     (case (if period = ''thisYear''
            then (case toISOString (newDateYMD tza (getFullYear tza now) 0 1) of
                    Inl e \<Rightarrow> Inl e
                  | Inr s \<Rightarrow> Inr [Gte ''date_sold'' s])
            else Inr []) of
        Inl e \<Rightarrow> Inl e
      | Inr f3 \<Rightarrow> Inr (f1 @ f2 @ f3))))"

definition filterRepairs ::
  "localTZA \<Rightarrow> int \<Rightarrow> 'r ui_state \<Rightarrow> string \<Rightarrow> 'r response \<Rightarrow> js_error + 'r ui_state \<times> effect list" where
  "filterRepairs tza now st period resp =
     (case periodFilters tza now period of
        Inl e \<Rightarrow> Inl e
      | Inr fs \<Rightarrow>
          Inr (st\<lparr>repairs := dataOrEmpty resp\<rparr>,
               [Select \<lparr>table = ''repairs'', columns = ''*'', filters = fs,
                         order_by = Some (''date_sold'', False)\<rparr>]))"

subsection \<open>Logout (lines 150 to 158)\<close>

definition logout :: "'r ui_state \<Rightarrow> 'r ui_state \<times> effect list" where
  "logout st = (st, [SignOut, Navigate ''/login''])"

subsection \<open>The page as a state machine\<close>

text \<open>
  What can happen to the mounted component: the effect hook runs \<^verbatim>\<open>init\<close>, the user
  types into one of the five inputs of the form, submits it, picks a CSV file, presses a
  filter button or logs out. An event carries what the outside world supplies to its
  handler: the typed text, the parsed rows, the session, the clock and the store's
  answers. A handler that throws ends there: the state stays as it was.
\<close>

datatype 'r event =
    Activate "unit option" "'r response"
  | ChangeItemName string
  | ChangeListingId string
  | ChangePrice string
  | ChangeDateSold string
  | ChangeNotes string
  | Submit "'r response" "'r response"
  | UploadCSV "csv_row list" "'r response" "'r response"
  | FilterPeriod int string "'r response"
  | Logout

fun step ::
  "(string \<Rightarrow> timevalue) \<Rightarrow> localTZA \<Rightarrow> 'r ui_state \<Rightarrow> 'r event \<Rightarrow> 'r ui_state \<times> effect list" where
  "step hostParse tza st (Activate session resp) = init st session resp"
| "step hostParse tza st (ChangeItemName v) = (changeItemName st v, [])"
| "step hostParse tza st (ChangeListingId v) = (changeListingId st v, [])"
| "step hostParse tza st (ChangePrice v) = (changePrice st v, [])"
| "step hostParse tza st (ChangeDateSold v) = (changeDateSold st v, [])"
| "step hostParse tza st (ChangeNotes v) = (changeNotes st v, [])"
| "step hostParse tza st (Submit insResp selResp) = handleSubmit st insResp selResp"
| "step hostParse tza st (UploadCSV results upsResp selResp) =
     (case handleCSV hostParse st results upsResp selResp of
        Inl e \<Rightarrow> (st, [])
      | Inr r \<Rightarrow> r)"
| "step hostParse tza st (FilterPeriod now period resp) =
     (case filterRepairs tza now st period resp of
        Inl e \<Rightarrow> (st, [])
      | Inr r \<Rightarrow> r)"
| "step hostParse tza st Logout = logout st"

text \<open>A run of events, with all the effects in order.\<close>

fun run ::
  "(string \<Rightarrow> timevalue) \<Rightarrow> localTZA \<Rightarrow> 'r ui_state \<Rightarrow> 'r event list \<Rightarrow> 'r ui_state \<times> effect list" where
  "run hostParse tza st [] = (st, [])"
| "run hostParse tza st (ev # evs) =
     (case step hostParse tza st ev of
        (st1, effs1) \<Rightarrow>
          (case run hostParse tza st1 evs of
             (st2, effs2) \<Rightarrow> (st2, effs1 @ effs2)))"

text \<open>The records that a list of effects inserts with \<^verbatim>\<open>.insert\<close>.\<close>

fun insertedRecords :: "effect list \<Rightarrow> repair_record list" where
  "insertedRecords [] = []"
| "insertedRecords (Insert t rs # effs) = rs @ insertedRecords effs"
| "insertedRecords (_ # effs) = insertedRecords effs"

section \<open>The record store\<close>

text \<open>
  The hosted record store is not part of the repository; the page only calls
  \<^verbatim>\<open>supabase.from('repairs').upsert(rows, { onConflict: ['listing_id'] })\<close>. A
  stored record is a record of the page with the identifier that the store assigned.
\<close>

type_synonym store = "(nat \<times> repair_record) list"

text \<open>
  Modelled from the spec: the store's write of one row under the conflict key
  \<open>listing_id\<close>, which the repository does not contain. After the specification
  (sections 3 and 4.3 and the glossary), the row overwrites the fields of the existing
  record that shares its \<open>listing_id\<close>, which keeps its identifier, or is inserted as
  a new record with a fresh identifier when there is none.
\<close>

fun upsertRow :: "store \<Rightarrow> nat \<Rightarrow> repair_record \<Rightarrow> store" where
  "upsertRow [] fresh r = [(fresh, r)]"
| "upsertRow ((i, x) # rest) fresh r =
     (if listing_id x = listing_id r then (i, r) # rest
      else (i, x) # upsertRow rest fresh r)"

text \<open>
  Modelled from the spec: the identifier that the store, which the repository does not
  contain, assigns to a new record (section 3); here one more than the largest in use.
\<close>

definition freshId :: "store \<Rightarrow> nat" where
  "freshId s = (if s = [] then 0 else Suc (Max (set (map fst s))))"

text \<open>
  Modelled from the spec: the store's bulk upsert, which the repository does not contain.
  After section 4.3 of the specification, the rows of the batch are written in their
  order, each under the conflict key.
\<close>

definition bulkUpsert :: "store \<Rightarrow> repair_record list \<Rightarrow> store" where
  "bulkUpsert s batch = foldl (\<lambda>s' r. upsertRow s' (freshId s') r) s batch"

text \<open>The stored records with a given \<open>listing_id\<close>, without their identifiers.\<close>

definition recordsFor :: "string \<Rightarrow> store \<Rightarrow> repair_record list" where
  "recordsFor k s = map snd (filter (\<lambda>(i, x). listing_id x = k) s)"

text \<open>The \<open>listing_id\<close>s of the stored records, in order.\<close>

definition storeKeys :: "store \<Rightarrow> string list" where
  "storeKeys s = map (\<lambda>(i, x). listing_id x) s"

section \<open>Example inputs\<close>

text \<open>A host whose \<^verbatim>\<open>Date.parse\<close> reads no format beyond the date-only ISO forms.\<close>

definition noHostFormats :: "string \<Rightarrow> timevalue" where
  "noHostFormats s = None"

text \<open>A host in the UTC time zone.\<close>

definition utcZone :: localTZA where
  "utcZone t isUTC = 0"

text \<open>The three rows of the scenario in the specification (section 8, item 5).\<close>

definition specRow1 :: csv_row where
  "specRow1 = [''Order number'' \<mapsto> ''1001'', ''Item title'' \<mapsto> ''Widget'',
     ''Total price'' \<mapsto> ''$10.00'', ''Sale date'' \<mapsto> ''2024-01-05'', ''Quantity'' \<mapsto> ''2'']"

definition specRow2 :: csv_row where
  "specRow2 = [''Order number'' \<mapsto> '''', ''Item title'' \<mapsto> ''BadRow'',
     ''Total price'' \<mapsto> ''$5'', ''Sale date'' \<mapsto> ''2024-01-06'', ''Quantity'' \<mapsto> ''1'']"

definition specRow3 :: csv_row where
  "specRow3 = [''Order number'' \<mapsto> ''1002'', ''Item title'' \<mapsto> ''Gadget'',
     ''Total price'' \<mapsto> ''$20.00'', ''Sale date'' \<mapsto> ''2024-02-01'', ''Quantity'' \<mapsto> '''']"

definition exampleForm :: form_state where
  "exampleForm = \<lparr>item_name = ''Phone screen'', listing_id = ''A-17'', price = ''19.99'',
     date_sold = ''2024-03-01'', quantity = Fin 1, notes' = ''cracked''\<rparr>"

definition exampleState :: "string ui_state" where
  "exampleState = \<lparr>loading = False, repairs = [''old row''], form = exampleForm\<rparr>"

definition okResponse :: "string response" where
  "okResponse = \<lparr>data = Some [''new row''], error = None\<rparr>"

definition failedResponse :: "string response" where
  "failedResponse = \<lparr>data = None, error = Some \<lparr>message = ''duplicate key''\<rparr>\<rparr>"

text \<open>A row that passes the gate and has no sale date.\<close>

definition undatedRow :: csv_row where
  "undatedRow = [''Order number'' \<mapsto> ''1003'', ''Item title'' \<mapsto> ''Cable'',
     ''Total price'' \<mapsto> ''$3.00'', ''Sale date'' \<mapsto> '''', ''Quantity'' \<mapsto> ''1'']"

text \<open>A row that passes the gate and has a quantity that is not a whole number.\<close>

definition fractionalRow :: csv_row where
  "fractionalRow = [''Order number'' \<mapsto> ''1004'', ''Item title'' \<mapsto> ''Solder'',
     ''Total price'' \<mapsto> ''$7.00'', ''Sale date'' \<mapsto> ''2024-03-02'', ''Quantity'' \<mapsto> ''2.5'']"

text \<open>A session of the page: two submissions, the first refused by the store.\<close>

definition exampleEvents :: "string event list" where
  "exampleEvents = [Activate (Some ()) okResponse, ChangeItemName ''Phone screen'',
     ChangePrice ''19.99'', Submit failedResponse okResponse, ChangeNotes ''cracked'',
     Submit okResponse okResponse]"

text \<open>A later row with the order number of the first row of the scenario.\<close>

definition duplicateRow :: csv_row where
  "duplicateRow = [''Order number'' \<mapsto> ''1001'', ''Item title'' \<mapsto> ''Widget (relisted)'',
     ''Total price'' \<mapsto> ''$12.50'', ''Sale date'' \<mapsto> ''2024-02-10'', ''Quantity'' \<mapsto> ''3'']"

section \<open>Properties of the number conversion\<close>

text \<open>
  Rounding to binary64 is exact on the whole numbers up to \<open>2^53\<close>, so
  \<^verbatim>\<open>Number\<close> reads a text of decimal digits of such a value as that value.
\<close>

lemma roundTiesToEven_of_int: "roundTiesToEven (of_int k) = k"
  by (simp add: roundTiesToEven_def)

lemma ilog2_of_int:
  assumes "0 < n"
  shows "ilog2 (of_int n) = bitlen n - 1"
proof -
  have b: "1 \<le> bitlen n"
    using assms bitlen_eq_zero_iff [of n] bitlen_nonneg [of n] by linarith
  have "(2::int) ^ nat (bitlen n - 1) \<le> n"
    using bitlen_bounds [OF assms] by simp
  then have "(of_int ((2::int) ^ nat (bitlen n - 1)) :: rat) \<le> of_int n"
    by (simp only: of_int_le_iff)
  then have "(2::rat) ^ nat (bitlen n - 1) \<le> of_int n"
    by simp
  moreover have "(2::rat) powi (bitlen n - 1) = 2 ^ nat (bitlen n - 1)"
    using b by (simp add: power_int_def)
  moreover have "bitlen 1 = 1"
    by (simp add: bitlen_alt_def)
  ultimately show ?thesis
    by (simp add: ilog2_def Let_def)
qed

lemma RoundMVResult_of_int:
  assumes "0 \<le> n" and "n \<le> 2 ^ 53"
  shows "RoundMVResult (of_int n) = Fin (of_int n)"
proof (cases "n = 0")
  case True
  then show ?thesis by (simp add: RoundMVResult_def)
next
  case False
  with assms have pos: "0 < n" by simp
  define e where "e = bitlen n - 1"
  have e0: "0 \<le> e"
    using pos bitlen_eq_zero_iff [of n] bitlen_nonneg [of n] unfolding e_def by linarith
  have lo: "(2::int) ^ nat e \<le> n"
    using bitlen_bounds [OF pos] by (simp add: e_def)
  have e53: "e \<le> 53"
  proof (rule ccontr)
    assume "\<not> e \<le> 53"
    then have "54 \<le> nat e" by simp
    then have "(2::int) ^ 54 \<le> 2 ^ nat e"
      by (intro power_increasing) simp_all
    with lo assms(2) show False by simp
  qed
  have il: "max (ilog2 (of_int n)) (- 1022) = e"
    using e0 by (simp add: ilog2_of_int [OF pos] e_def)
  have q: "\<exists>k. (of_int n :: rat) / 2 powi (e - 52) = of_int k"
  proof (cases "e \<le> 52")
    case True
    define j where "j = nat (52 - e)"
    have "e - 52 = - int j"
      using True by (simp add: j_def)
    then have "(2::rat) powi (e - 52) = inverse (2 ^ j)"
      by (simp add: power_int_minus)
    then have "(of_int n :: rat) / 2 powi (e - 52) = of_int (n * 2 ^ j)"
      by (simp add: divide_inverse)
    then show ?thesis ..
  next
    case False
    with e53 have e: "e = 53" by simp
    with lo assms(2) have n: "n = 2 ^ 53" by simp
    have "(of_int n :: rat) / 2 powi (e - 52) = of_int (2 ^ 52)"
      by (simp add: e n)
    then show ?thesis ..
  qed
  then obtain k where k: "(of_int n :: rat) / 2 powi (e - 52) = of_int k" ..
  have u: "(2::rat) powi (e - 52) \<noteq> 0"
    by simp
  have r: "of_int (roundTiesToEven (of_int n / 2 powi (e - 52))) * 2 powi (e - 52) = (of_int n :: rat)"
    unfolding k roundTiesToEven_of_int
    using k u by (metis nonzero_divide_eq_eq)
  have small: "\<not> (2::rat) ^ 1024 \<le> of_int n"
  proof -
    have "n < 2 ^ 1024"
      using assms(2) by (rule order_le_less_trans) simp
    then have "(of_int n :: rat) < of_int (2 ^ 1024)"
      by (simp only: of_int_less_iff)
    then show ?thesis by simp
  qed
  have a: "\<bar>of_int n :: rat\<bar> = of_int n" "(of_int n :: rat) \<noteq> 0" "\<not> (of_int n :: rat) < 0"
    using pos by simp_all
  show ?thesis
    unfolding RoundMVResult_def Let_def a il r
    using small a by simp
qed


lemma decodeUTF8_ascii:
  assumes "list_all (\<lambda>c. (of_char c :: int) < 128) s"
  shows "decodeUTF8 s = map of_char s"
  using assms
proof (induction s)
  case Nil
  then show ?case by simp
next
  case (Cons c s)
  then show ?case
    by (simp add: Let_def split: option.splits)
qed

lemma digit_ascii: "isDecimalDigit c \<Longrightarrow> (of_char c :: int) < 128"
  by (simp add: isDecimalDigit_def)

lemma digit_not_space: "isDecimalDigit c \<Longrightarrow> \<not> isStrWhiteSpaceChar (of_char c)"
  by (auto simp: isDecimalDigit_def isStrWhiteSpaceChar_def)

lemma trimString_digits:
  assumes "s \<noteq> []" and "list_all isDecimalDigit s"
  shows "trimString (map of_char s) = map of_char s"
proof -
  from assms obtain c t where s: "s = c # t" and c: "isDecimalDigit c"
    by (cases s) auto
  have d1: "dropWhile isStrWhiteSpaceChar (map of_char s) = map of_char s"
    using s c by (simp add: digit_not_space)
  from assms have "rev s \<noteq> []" and "list_all isDecimalDigit (rev s)"
    by (simp_all add: list_all_iff)
  then obtain c' t' where r: "rev s = c' # t'" and c': "isDecimalDigit c'"
    by (cases "rev s") auto
  have "dropWhile isStrWhiteSpaceChar (rev (map of_char s)) = rev (map of_char s)"
    using c' by (simp add: rev_map r digit_not_space)
  then show ?thesis
    by (simp add: trimString_def d1)
qed

lemma digitValue_digit:
  assumes "isDecimalDigit c"
  shows "\<exists>d. digitValue 10 c = Some d \<and> 0 \<le> d"
  using assms by (auto simp: digitValue_def isDecimalDigit_def Let_def)

lemma digitsValue_digits:
  assumes "list_all isDecimalDigit s" and "0 \<le> acc"
  shows "\<exists>n. digitsValue 10 acc s = Some n \<and> 0 \<le> n"
  using assms
proof (induction s arbitrary: acc)
  case Nil
  then show ?case by simp
next
  case (Cons c s)
  then obtain d where d: "digitValue 10 c = Some d" "0 \<le> d"
    using digitValue_digit [of c] by auto
  with Cons.prems have "0 \<le> acc * 10 + d"
    by simp
  with Cons.IH [of "acc * 10 + d"] Cons.prems d show ?case
    by simp
qed

lemma decimalValue_nonneg: "list_all isDecimalDigit s \<Longrightarrow> 0 \<le> decimalValue s"
  using digitsValue_digits [of s 0] by (auto simp: decimalValue_def)

lemma not_digit_chars:
  "\<not> isDecimalDigit CHR ''x''" "\<not> isDecimalDigit CHR ''X''" "\<not> isDecimalDigit CHR ''o''"
  "\<not> isDecimalDigit CHR ''O''" "\<not> isDecimalDigit CHR ''b''" "\<not> isDecimalDigit CHR ''B''"
  "\<not> isDecimalDigit CHR ''-''" "\<not> isDecimalDigit CHR ''+''" "\<not> isDecimalDigit CHR ''I''"
  by (simp_all add: isDecimalDigit_def)

lemma parseNonDecimal_digits:
  assumes "list_all isDecimalDigit s"
  shows "parseNonDecimal s = None"
proof (cases s)
  case Nil
  then show ?thesis by (simp add: parseNonDecimal_def)
next
  case (Cons z r)
  show ?thesis
  proof (cases r)
    case Nil
    with Cons show ?thesis by (simp add: parseNonDecimal_def)
  next
    case (Cons x t)
    with assms \<open>s = z # r\<close> have "isDecimalDigit x"
      by simp
    then have "x \<noteq> CHR ''x''" "x \<noteq> CHR ''X''" "x \<noteq> CHR ''o''" "x \<noteq> CHR ''O''"
      "x \<noteq> CHR ''b''" "x \<noteq> CHR ''B''"
      using not_digit_chars by auto
    then show ?thesis
      using Cons \<open>s = z # r\<close> by (simp add: parseNonDecimal_def)
  qed
qed

lemma parseUnsignedDecimal_digits:
  assumes "s \<noteq> []" and "list_all isDecimalDigit s"
  shows "parseUnsignedDecimal s = Some (of_int (decimalValue s))"
proof -
  have t: "takeWhile isDecimalDigit s = s" "dropWhile isDecimalDigit s = []"
    using assms(2) by (simp_all add: list_all_iff)
  have z: "decimalValue [] = 0"
    by (simp add: decimalValue_def)
  show ?thesis
    using assms(1) by (simp add: parseUnsignedDecimal_def t z Let_def)
qed

lemma StringToNumber_digits:
  assumes "s \<noteq> []" and "list_all isDecimalDigit s" and "decimalValue s \<le> 2 ^ 53"
  shows "StringToNumber s = Fin (of_int (decimalValue s))"
proof -
  from assms obtain c t where s: "s = c # t" and c: "isDecimalDigit c"
    by (cases s) auto
  have sign: "c \<noteq> CHR ''-''" "c \<noteq> CHR ''+''"
    using c not_digit_chars by auto
  have "c \<noteq> CHR ''I''"
    using c not_digit_chars by auto
  then have inf: "s \<noteq> ''Infinity''"
    by (simp add: s)
  have r: "RoundMVResult (of_int (decimalValue s)) = Fin (of_int (decimalValue s))"
    using decimalValue_nonneg [OF assms(2)] assms(3) by (rule RoundMVResult_of_int)
  have "parseStrUnsignedDecimalLiteral s = Some (Fin (of_int (decimalValue s)))"
    by (simp add: parseStrUnsignedDecimalLiteral_def inf
        parseUnsignedDecimal_digits [OF assms(1,2)] r)
  then have p: "parseStrNumericLiteral s = Fin (of_int (decimalValue s))"
    using sign
    by (simp add: parseStrNumericLiteral_def parseNonDecimal_digits [OF assms(2)] s [symmetric])
       (simp add: s)
  have ascii: "list_all (\<lambda>c. (of_char c :: int) < 128) s"
    using assms(2) by (auto simp: list_all_iff dest: digit_ascii)
  then have d: "decodeUTF8 s = map of_char s"
    by (rule decodeUTF8_ascii)
  have n: "\<not> list_ex (\<lambda>cp. 128 \<le> cp) (map (of_char :: char \<Rightarrow> int) s)"
    using ascii by (auto simp: list_ex_iff list_all_iff)
  have b: "map char_of (map (of_char :: char \<Rightarrow> int) s) = s"
    by (simp add: comp_def)
  show ?thesis
    using assms(1) n
    by (simp add: StringToNumber_def d trimString_digits [OF assms(1,2)] b p Let_def)
qed

text \<open>
  White space around a number is trimmed whatever its kind: a no-break space (as UTF-8
  or as a Latin-1 byte), a byte order mark, a line separator. A letter with an accent is
  not white space.
\<close>

lemma StringToNumber_trims_unicode_space:
  "StringToNumber [CHR 0xC2, CHR 0xA0, CHR ''5''] = Fin 5"
  "StringToNumber [CHR 0xA0, CHR ''5''] = Fin 5"
  "StringToNumber [CHR 0xEF, CHR 0xBB, CHR 0xBF, CHR ''5'', CHR 0xE2, CHR 0x80, CHR 0xA8] = Fin 5"
  "StringToNumber [CHR ''5'', CHR 0xC3, CHR 0xA0] = NaN"
  by code_simp+

section \<open>Properties of the calendar functions\<close>

text \<open>
  The year of a day is ECMAScript's: the one year whose first day is not after it and
  whose successor's first day is. From there, the date functions read back the year,
  month and day that \<open>MakeDay\<close> was given, for every real calendar day.
\<close>

lemma div_step:
  fixes x k :: int
  assumes "0 < k"
  shows "(x + 1) div k = (if (x + 1) mod k = 0 then x div k + 1 else x div k)"
proof -
  define q where "q = x div k"
  define r where "r = x mod k"
  have x: "x = k * q + r" and r: "0 \<le> r" "r < k"
    using assms by (simp_all add: q_def r_def)
  show ?thesis
  proof (cases "r = k - 1")
    case True
    then have e: "x + 1 = k * (q + 1) + 0"
      using x by (simp add: algebra_simps)
    have "(x + 1) div k = q + 1"
      using e assms by (intro int_div_pos_eq [where r = 0]) simp_all
    moreover have "(x + 1) mod k = 0"
      using e assms by (intro int_mod_pos_eq [where q = "q + 1"]) simp_all
    ultimately show ?thesis
      by (simp add: q_def)
  next
    case False
    then have r1: "0 \<le> r + 1" "r + 1 < k"
      using r by simp_all
    have e: "x + 1 = k * q + (r + 1)"
      using x by simp
    have "(x + 1) div k = q"
      using e r1 by (intro int_div_pos_eq [where r = "r + 1"]) simp_all
    moreover have "(x + 1) mod k = r + 1"
      using e r1 by (intro int_mod_pos_eq [where q = q]) simp_all
    ultimately show ?thesis
      using r by (simp add: q_def)
  qed
qed

lemma int_div_bounds:
  fixes x k :: int
  assumes "0 < k"
  shows "k * (x div k) \<le> x" and "x < k * (x div k) + k"
proof -
  have "x = k * (x div k) + x mod k"
    by simp
  moreover have "0 \<le> x mod k" "x mod k < k"
    using assms by simp_all
  ultimately show "k * (x div k) \<le> x" and "x < k * (x div k) + k"
    by linarith+
qed

lemma leap_mods:
  fixes y :: int
  shows "((y - 1969 + 1) mod 4 = 0) = (y mod 4 = 0)"
    and "((y - 1901 + 1) mod 100 = 0) = (y mod 100 = 0)"
    and "((y - 1601 + 1) mod 400 = 0) = (y mod 400 = 0)"
proof -
  have "y - 1969 + 1 = y + 4 * (- 492)" "y - 1901 + 1 = y + 100 * (- 19)"
    "y - 1601 + 1 = y + 400 * (- 4)"
    by simp_all
  then show "((y - 1969 + 1) mod 4 = 0) = (y mod 4 = 0)"
    and "((y - 1901 + 1) mod 100 = 0) = (y mod 100 = 0)"
    and "((y - 1601 + 1) mod 400 = 0) = (y mod 400 = 0)"
    by (simp_all only: mod_mult_self2)
qed

lemma mod_400_100:
  fixes y :: int
  assumes "y mod 400 = 0"
  shows "y mod 100 = 0"
proof -
  have "(100::int) dvd 400"
    by simp
  moreover have "400 dvd y"
    using assms by (simp add: mod_eq_0_iff_dvd)
  ultimately have "100 dvd y"
    by (rule dvd_trans)
  then show ?thesis
    by (simp add: mod_eq_0_iff_dvd)
qed

lemma mod_100_4:
  fixes y :: int
  assumes "y mod 100 = 0"
  shows "y mod 4 = 0"
proof -
  have "(4::int) dvd 100"
    by simp
  moreover have "100 dvd y"
    using assms by (simp add: mod_eq_0_iff_dvd)
  ultimately have "4 dvd y"
    by (rule dvd_trans)
  then show ?thesis
    by (simp add: mod_eq_0_iff_dvd)
qed

lemma DayFromYear_Suc: "DayFromYear (y + 1) = DayFromYear y + DaysInYear y"
proof -
  have a: "y + 1 - 1969 = (y - 1969) + 1" "y + 1 - 1901 = (y - 1901) + 1"
    "y + 1 - 1601 = (y - 1601) + 1" "y + 1 - 1970 = (y - 1970) + 1"
    by simp_all
  have s: "((y - 1969) + 1) div 4
            = (if y mod 4 = 0 then (y - 1969) div 4 + 1 else (y - 1969) div 4)"
    "((y - 1901) + 1) div 100
            = (if y mod 100 = 0 then (y - 1901) div 100 + 1 else (y - 1901) div 100)"
    "((y - 1601) + 1) div 400
            = (if y mod 400 = 0 then (y - 1601) div 400 + 1 else (y - 1601) div 400)"
    using div_step [of 4 "y - 1969"] div_step [of 100 "y - 1901"] div_step [of 400 "y - 1601"]
    by (simp_all only: leap_mods)
  show ?thesis
    unfolding DayFromYear_def DaysInYear_def a s
    using mod_400_100 [of y] mod_100_4 [of y]
    by auto
qed

lemma DaysInYear_cases: "DaysInYear y = 365 \<or> DaysInYear y = 366"
  by (simp add: DaysInYear_def)

lemma DayFromYear_mono: "y \<le> y' \<Longrightarrow> DayFromYear y \<le> DayFromYear y'"
proof (induction y' rule: int_ge_induct)
  case base
  show ?case by simp
next
  case (step i)
  then show ?case
    using DayFromYear_Suc [of i] DaysInYear_cases [of i] by linarith
qed

lemma DayFromYear_bounds:
  shows "146097 * y - 287811596 \<le> 400 * DayFromYear y"
    and "400 * DayFromYear y \<le> 146097 * y - 287810501"
proof -
  define a where "a = (y - 1969) div 4"
  define b where "b = (y - 1901) div 100"
  define c where "c = (y - 1601) div 400"
  have "4 * a \<le> y - 1969" "y - 1969 < 4 * a + 4"
    "100 * b \<le> y - 1901" "y - 1901 < 100 * b + 100"
    "400 * c \<le> y - 1601" "y - 1601 < 400 * c + 400"
    using int_div_bounds [of 4 "y - 1969"] int_div_bounds [of 100 "y - 1901"]
      int_div_bounds [of 400 "y - 1601"]
    by (simp_all add: a_def b_def c_def)
  moreover have "400 * DayFromYear y = 146000 * y - 287620000 + 400 * a - 400 * b + 400 * c"
    by (simp add: DayFromYear_def a_def b_def c_def)
  ultimately show "146097 * y - 287811596 \<le> 400 * DayFromYear y"
    and "400 * DayFromYear y \<le> 146097 * y - 287810501"
    by linarith+
qed

lemma YearFromDay_correct:
  "DayFromYear (YearFromDay d) \<le> d \<and> d < DayFromYear (YearFromDay d + 1)"
proof -
  define q where "q = (400 * d) div 146097"
  define y where "y = 1970 + q"
  have q: "146097 * q \<le> 400 * d" "400 * d < 146097 * q + 146097"
    using int_div_bounds [of 146097 "400 * d"] by (simp_all add: q_def)
  have lo: "DayFromYear (y - 1) \<le> d"
    using DayFromYear_bounds(2) [of "y - 1"] q by (simp add: y_def) 
  have hi: "d < DayFromYear (y + 2)"
    using DayFromYear_bounds(1) [of "y + 2"] q by (simp add: y_def)
  have s: "DayFromYear (y - 1 + 1) = DayFromYear y" "y + 1 + 1 = y + 2"
    by simp_all
  have "YearFromDay d = (if d < DayFromYear y then y - 1
      else if DayFromYear (y + 1) \<le> d then y + 1 else y)"
    by (simp add: YearFromDay_def y_def q_def Let_def)
  then show ?thesis
    using lo hi s by (auto simp: add.commute)
qed

lemma YearFromDay_unique:
  assumes "DayFromYear y \<le> d" and "d < DayFromYear (y + 1)"
  shows "YearFromDay d = y"
proof (rule ccontr)
  assume n: "YearFromDay d \<noteq> y"
  note c = YearFromDay_correct [of d]
  show False
  proof (cases "YearFromDay d < y")
    case True
    then have "DayFromYear (YearFromDay d + 1) \<le> DayFromYear y"
      by (intro DayFromYear_mono) simp
    with c assms show False by linarith
  next
    case False
    with n have "DayFromYear (y + 1) \<le> DayFromYear (YearFromDay d)"
      by (intro DayFromYear_mono) simp
    with c assms show False by linarith
  qed
qed


lemma month_cases:
  fixes m :: int
  assumes "0 \<le> m" and "m \<le> 11"
  shows "m = 0 \<or> m = 1 \<or> m = 2 \<or> m = 3 \<or> m = 4 \<or> m = 5 \<or> m = 6 \<or> m = 7
       \<or> m = 8 \<or> m = 9 \<or> m = 10 \<or> m = 11"
  using assms by arith

lemma MakeDay_in_year:
  assumes "0 \<le> m" and "m \<le> 11"
  shows "MakeDay y m d = DayFromYear y + daysBeforeMonth y m + d - 1"
proof -
  have "m div 12 = 0" "m mod 12 = m"
    using assms by simp_all
  then show ?thesis
    by (simp add: MakeDay_def)
qed

lemma daysBeforeMonth_next:
  assumes "0 \<le> m" and "m \<le> 10"
  shows "daysBeforeMonth y (m + 1) = daysBeforeMonth y m + DaysInMonth y m"
proof -
  have "m = 0 \<or> m = 1 \<or> m = 2 \<or> m = 3 \<or> m = 4 \<or> m = 5 \<or> m = 6 \<or> m = 7
       \<or> m = 8 \<or> m = 9 \<or> m = 10"
    using assms by arith
  then show ?thesis
    using DaysInYear_cases [of y]
    by (elim disjE) (simp_all add: daysBeforeMonth_def DaysInMonth_def)
qed

lemma daysBeforeMonth_last: "daysBeforeMonth y 11 + DaysInMonth y 11 = DaysInYear y"
  using DaysInYear_cases [of y] by (auto simp: daysBeforeMonth_def DaysInMonth_def)

lemma daysBeforeMonth_nonneg: "0 \<le> m \<Longrightarrow> m \<le> 11 \<Longrightarrow> 0 \<le> daysBeforeMonth y m"
  by (simp add: daysBeforeMonth_def)

lemma month_within_year:
  assumes "0 \<le> m" and "m \<le> 11"
  shows "daysBeforeMonth y m + DaysInMonth y m \<le> DaysInYear y"
proof -
  note month_cases [OF assms]
  then show ?thesis
    using DaysInYear_cases [of y]
    by (elim disjE) (simp_all add: daysBeforeMonth_def DaysInMonth_def)
qed

lemma MakeDay_bounds:
  assumes "validDate y m d"
  shows "DayFromYear y \<le> MakeDay y m d" and "MakeDay y m d < DayFromYear (y + 1)"
proof -
  have m: "0 \<le> m" "m \<le> 11" and d: "1 \<le> d" "d \<le> DaysInMonth y m"
    using assms by (simp_all add: validDate_def)
  note e = MakeDay_in_year [OF m, of y d]
  show "DayFromYear y \<le> MakeDay y m d"
    using e d daysBeforeMonth_nonneg [OF m, of y] by linarith
  show "MakeDay y m d < DayFromYear (y + 1)"
    using e d month_within_year [OF m, of y] DayFromYear_Suc [of y] by linarith
qed

lemma Day_MakeDate:
  assumes "0 \<le> tw" and "tw < msPerDay"
  shows "Day (MakeDate day tw) = day" and "TimeWithinDay (MakeDate day tw) = tw"
  using assms by (simp_all add: Day_def TimeWithinDay_def MakeDate_def msPerDay_def)

lemma YearFromTime_MakeDate:
  assumes "validDate y m d" and "0 \<le> tw" and "tw < msPerDay"
  shows "YearFromTime (MakeDate (MakeDay y m d) tw) = y"
  unfolding YearFromTime_def Day_MakeDate(1) [OF assms(2,3)]
  using MakeDay_bounds [OF assms(1)] by (rule YearFromDay_unique)

lemma DayWithinYear_MakeDate:
  assumes "validDate y m d" and "0 \<le> tw" and "tw < msPerDay"
  shows "DayWithinYear (MakeDate (MakeDay y m d) tw) = daysBeforeMonth y m + d - 1"
proof -
  have m: "0 \<le> m" "m \<le> 11"
    using assms(1) by (simp_all add: validDate_def)
  show ?thesis
    unfolding DayWithinYear_def YearFromTime_MakeDate [OF assms] Day_MakeDate(1) [OF assms(2,3)]
    by (simp add: MakeDay_in_year [OF m])
qed

lemma InLeapYear_MakeDate:
  assumes "validDate y m d" and "0 \<le> tw" and "tw < msPerDay"
  shows "InLeapYear (MakeDate (MakeDay y m d) tw) = (if DaysInYear y = 366 then 1 else 0)"
  by (simp add: InLeapYear_def YearFromTime_MakeDate [OF assms])

lemma MonthFromTime_MakeDate:
  assumes "validDate y m d" and "0 \<le> tw" and "tw < msPerDay"
  shows "MonthFromTime (MakeDate (MakeDay y m d) tw) = m"
proof -
  have m: "0 \<le> m" "m \<le> 11" and d: "1 \<le> d" "d \<le> DaysInMonth y m"
    using assms(1) by (simp_all add: validDate_def)
  note month_cases [OF m]
  then show ?thesis
    unfolding MonthFromTime_def DayWithinYear_MakeDate [OF assms] InLeapYear_MakeDate [OF assms]
    using d DaysInYear_cases [of y]
    by (elim disjE) (simp_all add: daysBeforeMonth_def DaysInMonth_def Let_def)
qed

lemma DateFromTime_MakeDate:
  assumes "validDate y m d" and "0 \<le> tw" and "tw < msPerDay"
  shows "DateFromTime (MakeDate (MakeDay y m d) tw) = d"
proof -
  have m: "0 \<le> m" "m \<le> 11"
    using assms(1) by (simp_all add: validDate_def)
  note month_cases [OF m]
  then show ?thesis
    unfolding DateFromTime_def DayWithinYear_MakeDate [OF assms] InLeapYear_MakeDate [OF assms]
      MonthFromTime_MakeDate [OF assms]
    using DaysInYear_cases [of y]
    by (elim disjE) (simp_all add: daysBeforeMonth_def Let_def)
qed

lemma calendarFields_midnight:
  assumes "validDate y m d"
  shows "calendarFields (MakeDate (MakeDay y m d) 0) = (y, m, d, 0, 0, 0, 0)"
proof -
  have z: "(0::int) \<le> 0" "0 < msPerDay"
    by (simp_all add: msPerDay_def)
  have "MakeDate (MakeDay y m d) 0 = MakeDay y m d * msPerDay"
    by (simp add: MakeDate_def)
  then have "HourFromTime (MakeDate (MakeDay y m d) 0) = 0"
    "MinFromTime (MakeDate (MakeDay y m d) 0) = 0"
    "SecFromTime (MakeDate (MakeDay y m d) 0) = 0"
    "msFromTime (MakeDate (MakeDay y m d) 0) = 0"
    by (simp_all add: HourFromTime_def MinFromTime_def SecFromTime_def msFromTime_def
        msPerDay_def msPerHour_def msPerMinute_def msPerSecond_def)
  then show ?thesis
    by (simp add: calendarFields_def YearFromTime_MakeDate [OF assms z]
        MonthFromTime_MakeDate [OF assms z] DateFromTime_MakeDate [OF assms z])
qed


lemma MonthFromTime_range: "0 \<le> MonthFromTime t \<and> MonthFromTime t \<le> 11"
  by (simp add: MonthFromTime_def Let_def)

lemma previousMonth_valid:
  assumes "0 \<le> m" and "m \<le> 11" and "previousMonth (y, m) = (py, pm)"
  shows "validDate py pm 1" and "validDate py pm (DaysInMonth py pm)"
  using assms by (auto simp: previousMonth_def validDate_def DaysInMonth_def split: if_splits)

lemma MakeDay_previous_first:
  assumes "0 \<le> m" and "m \<le> 11" and "previousMonth (y, m) = (py, pm)"
  shows "MakeDay y (m - 1) 1 = MakeDay py pm 1"
proof (cases "m = 0")
  case True
  with assms(3) have "py = y - 1" "pm = 11"
    by (simp_all add: previousMonth_def)
  with True show ?thesis
    by (simp add: MakeDay_def)
next
  case False
  with assms(3) show ?thesis
    by (simp add: previousMonth_def)
qed

lemma MakeDay_day_zero:
  assumes "0 \<le> m" and "m \<le> 11" and "previousMonth (y, m) = (py, pm)"
  shows "MakeDay y m 0 = MakeDay py pm (DaysInMonth py pm)"
proof (cases "m = 0")
  case True
  with assms(3) have p: "py = y - 1" "pm = 11"
    by (simp_all add: previousMonth_def)
  have "MakeDay y 0 0 = DayFromYear y - 1"
    by (simp add: MakeDay_def daysBeforeMonth_def)
  moreover have "MakeDay (y - 1) 11 (DaysInMonth (y - 1) 11) = DayFromYear (y - 1) + DaysInYear (y - 1) - 1"
    using daysBeforeMonth_last [of "y - 1"] by (simp add: MakeDay_in_year)
  moreover have "DayFromYear y = DayFromYear (y - 1) + DaysInYear (y - 1)"
    using DayFromYear_Suc [of "y - 1"] by simp
  ultimately show ?thesis
    using True p by simp
next
  case False
  with assms(3) have p: "py = y" "pm = m - 1"
    by (simp_all add: previousMonth_def)
  have m1: "0 \<le> m - 1" "m - 1 \<le> 10" "m - 1 \<le> 11"
    using False assms(1,2) by simp_all
  have "daysBeforeMonth y m = daysBeforeMonth y (m - 1) + DaysInMonth y (m - 1)"
    using daysBeforeMonth_next [OF m1(1,2), of y] by simp
  then show ?thesis
    unfolding p MakeDay_in_year [OF assms(1,2)] MakeDay_in_year [OF m1(1,3)]
    by simp
qed

lemma TimeClip_local_midnight:
  assumes v: "validDate y m d" and y: "99 \<le> y" "y \<le> 275000" and z: "\<bar>z\<bar> \<le> msPerDay"
  shows "TimeClip (MakeDate (MakeDay y m d) 0 - z) = Some (MakeDate (MakeDay y m d) 0 - z)"
proof -
  note b = MakeDay_bounds [OF v]
  have "- 273347993 \<le> 400 * DayFromYear y"
    using DayFromYear_bounds(1) [of y] y(1) by simp
  moreover have "400 * DayFromYear (y + 1) \<le> 39889011096"
    using DayFromYear_bounds(2) [of "y + 1"] y(2) by simp
  ultimately have "- 683370 \<le> MakeDay y m d" "MakeDay y m d \<le> 99722527"
    using b by linarith+
  then have "- 59043168000000 \<le> MakeDate (MakeDay y m d) 0"
    "MakeDate (MakeDay y m d) 0 \<le> 8616026332800000"
    by (simp_all add: MakeDate_def msPerDay_def)
  then have "\<bar>MakeDate (MakeDay y m d) 0 - z\<bar> \<le> 8640000000000000"
    using z by (simp add: msPerDay_def abs_le_iff) 
  then show ?thesis
    by (simp add: TimeClip_def)
qed

lemma newDateYMD_plain_year:
  assumes "100 \<le> y"
  shows "newDateYMD tza y m d = TimeClip (MakeDate (MakeDay y m d) 0 - tza (MakeDate (MakeDay y m d) 0) False)"
  using assms by (simp add: newDateYMD_def MakeTime_def UTC_def Let_def)

section \<open>Properties of the CSV import\<close>

lemma normalizeRow_gate_fails:
  "\<not> gatePasses row \<Longrightarrow> normalizeRow hostParse row = Inr None"
  by (auto simp: normalizeRow_def gatePasses_def)

lemma mapRows_append:
  "mapRows h (xs @ ys) =
     (case mapRows h xs of Inl e \<Rightarrow> Inl e
      | Inr rs \<Rightarrow> (case mapRows h ys of Inl e \<Rightarrow> Inl e | Inr rs' \<Rightarrow> Inr (rs @ rs')))"
  by (induction xs) (auto split: sum.splits)

lemma filterBoolean_append: "filterBoolean (xs @ ys) = filterBoolean xs @ filterBoolean ys"
  by (simp add: filterBoolean_def)

lemma filterBoolean_simps [simp]:
  "filterBoolean [] = []"
  "filterBoolean (None # xs) = filterBoolean xs"
  "filterBoolean (Some x # xs) = x # filterBoolean xs"
  by (simp_all add: filterBoolean_def)

lemma csvBatch_drop_null:
  "normalizeRow h r = Inr None \<Longrightarrow> csvBatch h (xs @ r # ys) = csvBatch h (xs @ ys)"
  by (auto simp: csvBatch_def mapRows_append filterBoolean_append split: sum.splits)

lemma specRows_13_batch:
  "csvBatch h [specRow1, specRow3]
     = Inr [\<lparr>item_name = ''Widget'', listing_id = ''1001'', price = Fin 10,
              date_sold = ''2024-01-05T00:00:00.000Z'', quantity = Fin 2,
              notes' = None, source = ''csv''\<rparr>,
            \<lparr>item_name = ''Gadget'', listing_id = ''1002'', price = Fin 20,
              date_sold = ''2024-02-01T00:00:00.000Z'', quantity = Fin 1,
              notes' = None, source = ''csv''\<rparr>]"
  by code_simp

text \<open>
  C2. A parsed row whose "Order number", "Item title" or "Total price" is missing or
  empty is excluded from the batch: its callback returns \<^verbatim>\<open>null\<close> without an
  exception, and the batch and the whole run of the handler (state, calls made, alerts)
  are those of the same file without the row.
\<close>

theorem gate_failure_excludes_row:
  assumes "row ''Order number'' = None \<or> row ''Order number'' = Some ''''
         \<or> row ''Item title'' = None \<or> row ''Item title'' = Some ''''
         \<or> row ''Total price'' = None \<or> row ''Total price'' = Some ''''"
  shows "normalizeRow hostParse row = Inr None
       \<and> csvBatch hostParse (before @ row # after) = csvBatch hostParse (before @ after)
       \<and> handleCSV hostParse st (before @ row # after) upsResp selResp
           = handleCSV hostParse st (before @ after) upsResp selResp"
proof -
  have "\<not> gatePasses row"
    using assms by (auto simp: gatePasses_def truthy_def)
  then have n: "normalizeRow hostParse row = Inr None"
    by (rule normalizeRow_gate_fails)
  then have "csvBatch hostParse (before @ row # after) = csvBatch hostParse (before @ after)"
    by (rule csvBatch_drop_null)
  with n show ?thesis
    by (simp add: handleCSV_def)
qed

theorem gate_failure_excludes_row_witness:
  "specRow2 ''Order number'' = Some ''''
   \<and> normalizeRow noHostFormats specRow2 = Inr None
   \<and> csvBatch noHostFormats [specRow1, specRow2, specRow3]
       = Inr [\<lparr>item_name = ''Widget'', listing_id = ''1001'', price = Fin 10,
                date_sold = ''2024-01-05T00:00:00.000Z'', quantity = Fin 2,
                notes' = None, source = ''csv''\<rparr>,
              \<lparr>item_name = ''Gadget'', listing_id = ''1002'', price = Fin 20,
                date_sold = ''2024-02-01T00:00:00.000Z'', quantity = Fin 1,
                notes' = None, source = ''csv''\<rparr>]
   \<and> handleCSV noHostFormats exampleState [specRow1, specRow2, specRow3] okResponse okResponse
       = handleCSV noHostFormats exampleState [specRow1, specRow3] okResponse okResponse"
proof -
  have e: "specRow2 ''Order number'' = Some ''''"
    by (simp add: specRow2_def)
  then have "specRow2 ''Order number'' = None \<or> specRow2 ''Order number'' = Some ''''
         \<or> specRow2 ''Item title'' = None \<or> specRow2 ''Item title'' = Some ''''
         \<or> specRow2 ''Total price'' = None \<or> specRow2 ''Total price'' = Some ''''"
    by simp
  from gate_failure_excludes_row [OF this, of noHostFormats "[specRow1]" "[specRow3]"
      exampleState okResponse okResponse]
  show ?thesis
    using e by (simp add: specRows_13_batch)
qed

text \<open>
  C3. The three rows of the scenario give exactly two records, in the order of the
  input: order 1001 (Widget, price 10, quantity 2, sold 2024-01-05) and order 1002 (Gadget,
  price 20, quantity 1, sold 2024-02-01), both with source "csv" and the date as the ISO
  text of UTC midnight; the row with the empty order number is dropped. This holds on
  every host, since the dates are in the date-only ISO form.
\<close>

theorem spec_scenario_batch:
  "csvBatch hostParse [specRow1, specRow2, specRow3]
     = Inr [\<lparr>item_name = ''Widget'', listing_id = ''1001'', price = Fin 10,
              date_sold = ''2024-01-05T00:00:00.000Z'', quantity = Fin 2,
              notes' = None, source = ''csv''\<rparr>,
            \<lparr>item_name = ''Gadget'', listing_id = ''1002'', price = Fin 20,
              date_sold = ''2024-02-01T00:00:00.000Z'', quantity = Fin 1,
              notes' = None, source = ''csv''\<rparr>]"
  by code_simp

text \<open>A total price of "$42.50" becomes the number 42.5.\<close>

lemma price_42_50: "StringToNumber (replaceFirst ''$'' '''' ''$42.50'') = Fin (85 / 2)"
  by code_simp

text \<open>The only exception of the import is the RangeError of \<^verbatim>\<open>toISOString()\<close>.\<close>

lemma toISOString_error: "toISOString tv = Inl e \<Longrightarrow> e = RangeError ''Invalid time value''"
  by (auto simp: toISOString_def split: option.splits)

lemma normalizeRow_error:
  "normalizeRow h r = Inl e \<Longrightarrow> e = RangeError ''Invalid time value''"
  by (auto simp: normalizeRow_def split: if_splits option.splits sum.splits dest: toISOString_error)

lemma mapRows_error:
  "mapRows h xs = Inl e \<Longrightarrow> e = RangeError ''Invalid time value''"
  by (induction xs) (auto split: sum.splits dest: normalizeRow_error)

lemma normalizeRow_invalid_date:
  assumes "gatePasses row" and "newDateValue hostParse (row ''Sale date'') = None"
  shows "normalizeRow hostParse row = Inl (RangeError ''Invalid time value'')"
  using assms
  by (auto simp: normalizeRow_def gatePasses_def truthy_def toISOString_def split: option.splits)

lemma mapRows_throwing_row:
  assumes "normalizeRow h r = Inl e"
  shows "\<exists>e'. mapRows h (xs @ r # ys) = Inl e'"
  using assms by (induction xs) (auto split: sum.splits)

text \<open>
  C4 says that a row which passes the gate and has an unparseable "Sale date" is kept,
  with an invalid date, and the import goes on. The code does otherwise:
  \<^verbatim>\<open>new Date(...)\<close> gives an invalid date, on which \<^verbatim>\<open>toISOString()\<close> throws;
  the exception leaves \<^verbatim>\<open>.map\<close> and the callback, so no record of the file is
  written, no call to the store is made and no alert is shown, wherever the row stands in
  the file.
\<close>

theorem unparseable_date_aborts_import:
  assumes "gatePasses row" and "newDateValue hostParse (row ''Sale date'') = None"
  shows "normalizeRow hostParse row = Inl (RangeError ''Invalid time value'')
       \<and> csvBatch hostParse (before @ row # after) = Inl (RangeError ''Invalid time value'')
       \<and> handleCSV hostParse st (before @ row # after) upsResp selResp
           = Inl (RangeError ''Invalid time value'')"
proof -
  have n: "normalizeRow hostParse row = Inl (RangeError ''Invalid time value'')"
    using assms by (rule normalizeRow_invalid_date)
  obtain e where "mapRows hostParse (before @ row # after) = Inl e"
    using mapRows_throwing_row [OF n] by blast
  then have "mapRows hostParse (before @ row # after) = Inl (RangeError ''Invalid time value'')"
    using mapRows_error by blast
  then show ?thesis
    using n by (simp add: handleCSV_def csvBatch_def)
qed

theorem unparseable_date_aborts_import_witness:
  "gatePasses undatedRow \<and> newDateValue noHostFormats (undatedRow ''Sale date'') = None
   \<and> handleCSV noHostFormats exampleState [specRow1, undatedRow, specRow3] okResponse okResponse
       = Inl (RangeError ''Invalid time value'')"
proof -
  have g: "gatePasses undatedRow"
    by code_simp
  have d: "newDateValue noHostFormats (undatedRow ''Sale date'') = None"
    by code_simp
  show ?thesis
    using g d unparseable_date_aborts_import [OF g d, of "[specRow1]" "[specRow3]"
      exampleState okResponse okResponse]
    by simp
qed

text \<open>
  C5, as stated, fails: the quantity is \<^verbatim>\<open>Number(row['Quantity'] || 1)\<close>, and
  \<^verbatim>\<open>Number\<close> does not parse an integer. The row with the quantity text "2.5" gives
  the quantity 2.5, which is not a whole number.
\<close>

theorem quantity_not_integer_counterexample:
  "csvBatch noHostFormats [fractionalRow]
     = Inr [\<lparr>item_name = ''Solder'', listing_id = ''1004'', price = Fin 7,
              date_sold = ''2024-03-02T00:00:00.000Z'', quantity = Fin (5 / 2),
              notes' = None, source = ''csv''\<rparr>]
   \<and> (5 / 2 :: rat) \<notin> \<int>"
proof -
  have "csvBatch noHostFormats [fractionalRow]
     = Inr [\<lparr>item_name = ''Solder'', listing_id = ''1004'', price = Fin 7,
              date_sold = ''2024-03-02T00:00:00.000Z'', quantity = Fin (5 / 2),
              notes' = None, source = ''csv''\<rparr>]"
    by code_simp
  then show ?thesis
    by simp
qed

text \<open>
  C5, amended. For every row from which a record is made (it passes the gate and its
  sale date converts), the quantity is \<^verbatim>\<open>Number\<close> of the "Quantity" text; it is
  exactly 1 when the column is absent or empty; and it is the whole number itself when the
  text consists of decimal digits of a value up to \<open>2^53\<close>.
\<close>

theorem quantity_is_Number_of_text:
  assumes "normalizeRow hostParse row = Inr (Some r)"
  shows "quantity r = (case row ''Quantity'' of
                         None \<Rightarrow> Fin 1
                       | Some q \<Rightarrow> if q = '''' then Fin 1 else StringToNumber q)
       \<and> (row ''Quantity'' = None \<or> row ''Quantity'' = Some '''' \<longrightarrow> quantity r = Fin 1)
       \<and> (\<forall>q. row ''Quantity'' = Some q \<and> q \<noteq> '''' \<and> list_all isDecimalDigit q
                \<and> decimalValue q \<le> 2 ^ 53
              \<longrightarrow> quantity r = Fin (of_int (decimalValue q)))"
proof -
  have q: "quantity r = (case row ''Quantity'' of
                         None \<Rightarrow> Fin 1
                       | Some q \<Rightarrow> if q = '''' then Fin 1 else StringToNumber q)"
    using assms
    by (auto simp: normalizeRow_def truthy_def split: if_splits option.splits sum.splits)
  then show ?thesis
    by (auto simp: StringToNumber_digits)
qed

lemma specRow1_record:
  "normalizeRow noHostFormats specRow1
     = Inr (Some \<lparr>item_name = ''Widget'', listing_id = ''1001'', price = Fin 10,
              date_sold = ''2024-01-05T00:00:00.000Z'', quantity = Fin 2,
              notes' = None, source = ''csv''\<rparr>)"
  by code_simp

lemma specRow3_record:
  "normalizeRow noHostFormats specRow3
     = Inr (Some \<lparr>item_name = ''Gadget'', listing_id = ''1002'', price = Fin 20,
              date_sold = ''2024-02-01T00:00:00.000Z'', quantity = Fin 1,
              notes' = None, source = ''csv''\<rparr>)"
  by code_simp

lemma fractionalRow_record:
  "normalizeRow noHostFormats fractionalRow
     = Inr (Some \<lparr>item_name = ''Solder'', listing_id = ''1004'', price = Fin 7,
              date_sold = ''2024-03-02T00:00:00.000Z'', quantity = Fin (5 / 2),
              notes' = None, source = ''csv''\<rparr>)"
  by code_simp

theorem quantity_is_Number_of_text_witness:
  "specRow3 ''Quantity'' = Some ''''
   \<and> map_option quantity (projr (normalizeRow noHostFormats specRow3)) = Some (Fin 1)
   \<and> fractionalRow ''Quantity'' = Some ''2.5''
   \<and> map_option quantity (projr (normalizeRow noHostFormats fractionalRow))
       = Some (StringToNumber ''2.5'')
   \<and> specRow1 ''Quantity'' = Some ''2'' \<and> list_all isDecimalDigit ''2''
   \<and> decimalValue ''2'' = 2
   \<and> map_option quantity (projr (normalizeRow noHostFormats specRow1)) = Some (Fin 2)"
proof -
  have q1: "specRow1 ''Quantity'' = Some ''2''" and q3: "specRow3 ''Quantity'' = Some ''''"
    and qf: "fractionalRow ''Quantity'' = Some ''2.5''"
    by (simp_all add: specRow1_def specRow3_def fractionalRow_def)
  have d: "list_all isDecimalDigit ''2''" "decimalValue ''2'' = 2"
    by code_simp+
  from quantity_is_Number_of_text [OF specRow3_record]
       quantity_is_Number_of_text [OF fractionalRow_record]
       quantity_is_Number_of_text [OF specRow1_record]
  show ?thesis
    using q1 q3 qf d
    by (simp add: specRow1_record specRow3_record fractionalRow_record)
qed

section \<open>Properties of the import against the store\<close>

lemma storeKeys_simps [simp]:
  "storeKeys [] = []"
  "storeKeys ((i, x) # s) = listing_id x # storeKeys s"
  by (simp_all add: storeKeys_def)

lemma recordsFor_simps [simp]:
  "recordsFor k [] = []"
  "recordsFor k ((i, x) # s) = (if listing_id x = k then x # recordsFor k s else recordsFor k s)"
  by (simp_all add: recordsFor_def)

lemma recordsFor_absent: "k \<notin> set (storeKeys s) \<Longrightarrow> recordsFor k s = []"
  by (induction s) auto

lemma set_storeKeys_upsertRow:
  "set (storeKeys (upsertRow s n r)) = insert (listing_id r) (set (storeKeys s))"
  by (induction s n r rule: upsertRow.induct) auto

lemma distinct_storeKeys_upsertRow:
  "distinct (storeKeys s) \<Longrightarrow> distinct (storeKeys (upsertRow s n r))"
  by (induction s n r rule: upsertRow.induct) (auto simp: set_storeKeys_upsertRow)

lemma recordsFor_upsertRow_other:
  "listing_id r \<noteq> k \<Longrightarrow> recordsFor k (upsertRow s n r) = recordsFor k s"
  by (induction s n r rule: upsertRow.induct) auto

lemma recordsFor_upsertRow_same:
  "distinct (storeKeys s) \<Longrightarrow> recordsFor (listing_id r) (upsertRow s n r) = [r]"
  by (induction s n r rule: upsertRow.induct) (auto simp: recordsFor_absent)

lemma bulkUpsert_simps [simp]:
  "bulkUpsert s [] = s"
  "bulkUpsert s (r # rs) = bulkUpsert (upsertRow s (freshId s) r) rs"
  by (simp_all add: bulkUpsert_def)

lemma bulkUpsert_append: "bulkUpsert s (xs @ ys) = bulkUpsert (bulkUpsert s xs) ys"
  by (simp add: bulkUpsert_def)

lemma distinct_storeKeys_bulkUpsert:
  "distinct (storeKeys s) \<Longrightarrow> distinct (storeKeys (bulkUpsert s rs))"
  by (induction rs arbitrary: s) (auto simp: distinct_storeKeys_upsertRow)

lemma recordsFor_bulkUpsert_other:
  "k \<notin> listing_id ` set rs \<Longrightarrow> recordsFor k (bulkUpsert s rs) = recordsFor k s"
  by (induction rs arbitrary: s) (auto simp: recordsFor_upsertRow_other)

lemma recordsFor_bulkUpsert_last:
  assumes "distinct (storeKeys s)" and "listing_id p \<notin> listing_id ` set ys"
  shows "recordsFor (listing_id p) (bulkUpsert s (xs @ p # ys)) = [p]"
proof -
  have "distinct (storeKeys (bulkUpsert s xs))"
    using assms(1) by (rule distinct_storeKeys_bulkUpsert)
  then have "recordsFor (listing_id p) (upsertRow (bulkUpsert s xs) (freshId (bulkUpsert s xs)) p) = [p]"
    by (rule recordsFor_upsertRow_same)
  then show ?thesis
    using assms(2) by (simp add: bulkUpsert_append recordsFor_bulkUpsert_other)
qed

lemma csvBatch_append:
  "csvBatch h (xs @ ys) =
     (case csvBatch h xs of Inl e \<Rightarrow> Inl e
      | Inr b \<Rightarrow> (case csvBatch h ys of Inl e \<Rightarrow> Inl e | Inr b' \<Rightarrow> Inr (b @ b')))"
  by (auto simp: csvBatch_def mapRows_append filterBoolean_append split: sum.splits)

lemma csvBatch_Cons:
  "csvBatch h (r # ys) =
     (case normalizeRow h r of Inl e \<Rightarrow> Inl e
      | Inr None \<Rightarrow> csvBatch h ys
      | Inr (Some p) \<Rightarrow> (case csvBatch h ys of Inl e \<Rightarrow> Inl e | Inr b \<Rightarrow> Inr (p # b)))"
  by (auto simp: csvBatch_def split: sum.splits option.splits)

lemma normalizeRow_listing_id:
  "normalizeRow h r = Inr (Some p) \<Longrightarrow> r ''Order number'' = Some (listing_id p)"
  by (auto simp: normalizeRow_def split: if_splits option.splits sum.splits)

lemma csvBatch_listing_ids:
  "csvBatch h rows = Inr b \<Longrightarrow> p \<in> set b \<Longrightarrow>
     \<exists>r \<in> set rows. r ''Order number'' = Some (listing_id p)"
proof (induction rows arbitrary: b)
  case Nil
  then show ?case by (simp add: csvBatch_def)
next
  case (Cons r rows)
  then show ?case
    by (auto simp: csvBatch_Cons split: sum.splits option.splits dest: normalizeRow_listing_id)
qed

lemma normalizeRow_record:
  assumes "row ''Order number'' = Some k" and "k \<noteq> ''''"
    and "row ''Item title'' = Some itemTitle" and "itemTitle \<noteq> ''''"
    and "row ''Total price'' = Some totalPrice" and "totalPrice \<noteq> ''''"
    and "newDateValue hostParse (row ''Sale date'') = Some t"
  shows "normalizeRow hostParse row
           = Inr (Some \<lparr>item_name = itemTitle, listing_id = k,
                    price = StringToNumber (replaceFirst ''$'' '''' totalPrice),
                    date_sold = formatISO t,
                    quantity = (case row ''Quantity'' of
                                  None \<Rightarrow> Fin 1
                                | Some q \<Rightarrow> if q = '''' then Fin 1 else StringToNumber q),
                    notes' = None, source = ''csv''\<rparr>)"
  using assms
  by (auto simp: normalizeRow_def truthy_def toISOString_def split: option.splits)

lemma normalizeRow_gate_date:
  assumes "gatePasses row" and "newDateValue hostParse (row ''Sale date'') \<noteq> None"
  shows "\<exists>p. normalizeRow hostParse row = Inr (Some p)"
  using assms
  by (auto simp: normalizeRow_def gatePasses_def truthy_def toISOString_def split: option.splits)

lemma normalizeRow_no_throw:
  assumes "gatePasses row \<longrightarrow> newDateValue hostParse (row ''Sale date'') \<noteq> None"
  shows "\<exists>r. normalizeRow hostParse row = Inr r"
proof (cases "gatePasses row")
  case True
  with assms normalizeRow_gate_date [of row hostParse] show ?thesis
    by auto
next
  case False
  then show ?thesis
    by (simp add: normalizeRow_gate_fails)
qed

lemma csvBatch_no_throw:
  assumes "\<forall>r \<in> set rows. gatePasses r \<longrightarrow> newDateValue hostParse (r ''Sale date'') \<noteq> None"
  shows "\<exists>batch. csvBatch hostParse rows = Inr batch"
  using assms
proof (induction rows)
  case Nil
  show ?case by (simp add: csvBatch_def)
next
  case (Cons r rows)
  then obtain batch where "csvBatch hostParse rows = Inr batch"
    by auto
  moreover obtain x where "normalizeRow hostParse r = Inr x"
    using Cons.prems normalizeRow_no_throw [of r hostParse] by auto
  ultimately show ?case
    by (cases x) (simp_all add: csvBatch_Cons)
qed

text \<open>
  On the batch of a file in which two normalized rows share their order number, the
  upsert keeps the fields of the later one.
\<close>

lemma upsert_keeps_later_row:
  assumes batch: "csvBatch hostParse (before @ r1 # between @ r2 # after) = Inr batch"
    and n1: "normalizeRow hostParse r1 = Inr (Some p1)"
    and n2: "normalizeRow hostParse r2 = Inr (Some p2)"
    and same: "r1 ''Order number'' = r2 ''Order number''"
    and later: "\<forall>r \<in> set after. r ''Order number'' \<noteq> r2 ''Order number''"
  shows "2 \<le> length (filter (\<lambda>p. listing_id p = listing_id p2) batch)
       \<and> recordsFor (listing_id p2) (bulkUpsert [] batch) = [p2]"
proof -
  obtain b0 b1 b2 where b0: "csvBatch hostParse before = Inr b0"
    and b1: "csvBatch hostParse between = Inr b1"
    and b2: "csvBatch hostParse after = Inr b2"
    and b: "batch = b0 @ p1 # b1 @ p2 # b2"
    using batch n1 n2
    by (auto simp: csvBatch_append csvBatch_Cons split: sum.splits)
  have k2: "r2 ''Order number'' = Some (listing_id p2)"
    using n2 by (rule normalizeRow_listing_id)
  have "r1 ''Order number'' = Some (listing_id p1)"
    using n1 by (rule normalizeRow_listing_id)
  with same k2 have eq: "listing_id p1 = listing_id p2"
    by simp
  have "listing_id p2 \<notin> listing_id ` set b2"
  proof
    assume "listing_id p2 \<in> listing_id ` set b2"
    then obtain p where "p \<in> set b2" and "listing_id p = listing_id p2"
      by auto
    with csvBatch_listing_ids [OF b2] obtain r where "r \<in> set after"
      and "r ''Order number'' = Some (listing_id p2)"
      by metis
    with later k2 show False
      by simp
  qed
  then have "recordsFor (listing_id p2) (bulkUpsert [] ((b0 @ p1 # b1) @ p2 # b2)) = [p2]"
    by (intro recordsFor_bulkUpsert_last) simp_all
  then show ?thesis
    using b eq by simp
qed

text \<open>
  C1. Take a file in which two rows have the same "Order number", \<open>r1\<close> before \<open>r2\<close>,
  and no row after \<open>r2\<close> has that number; both rows pass the validity gate, and the sale
  date of every row that passes the gate converts (a date that does not convert aborts the
  import, see C4). Then the handler normalizes the file to a batch and submits that batch
  whole in one upsert with the conflict key \<open>listing_id\<close>. The batch holds at least two
  records with the shared \<open>listing_id\<close>; applied to the empty store, the upsert leaves
  exactly one record with it, and the fields of that record are those the page computes
  from the cells of the later row \<open>r2\<close>.
\<close>

theorem duplicate_order_numbers_overwrite:
  assumes gate1: "gatePasses r1"
    and number2: "r2 ''Order number'' = Some k" "k \<noteq> ''''"
    and title2: "r2 ''Item title'' = Some itemTitle" "itemTitle \<noteq> ''''"
    and total2: "r2 ''Total price'' = Some totalPrice" "totalPrice \<noteq> ''''"
    and date2: "newDateValue hostParse (r2 ''Sale date'') = Some t"
    and dates: "\<forall>r \<in> set (before @ r1 # between @ r2 # after).
                  gatePasses r \<longrightarrow> newDateValue hostParse (r ''Sale date'') \<noteq> None"
    and same: "r1 ''Order number'' = r2 ''Order number''"
    and later: "\<forall>r \<in> set after. r ''Order number'' \<noteq> r2 ''Order number''"
  shows "\<exists>batch st' effs.
           csvBatch hostParse (before @ r1 # between @ r2 # after) = Inr batch
         \<and> handleCSV hostParse st (before @ r1 # between @ r2 # after) upsResp selResp
             = Inr (st', Upsert ''repairs'' batch [''listing_id''] # effs)
         \<and> 2 \<le> length (filter (\<lambda>p. listing_id p = k) batch)
         \<and> recordsFor k (bulkUpsert [] batch)
             = [\<lparr>item_name = itemTitle, listing_id = k,
                  price = StringToNumber (replaceFirst ''$'' '''' totalPrice),
                  date_sold = formatISO t,
                  quantity = (case r2 ''Quantity'' of
                                None \<Rightarrow> Fin 1
                              | Some q \<Rightarrow> if q = '''' then Fin 1 else StringToNumber q),
                  notes' = None, source = ''csv''\<rparr>]"
proof -
  define p2 :: repair_record where "p2 = \<lparr>item_name = itemTitle, listing_id = k,
                  price = StringToNumber (replaceFirst ''$'' '''' totalPrice),
                  date_sold = formatISO t,
                  quantity = (case r2 ''Quantity'' of
                                None \<Rightarrow> Fin 1
                              | Some q \<Rightarrow> if q = '''' then Fin 1 else StringToNumber q),
                  notes' = None, source = ''csv''\<rparr>"
  have n2: "normalizeRow hostParse r2 = Inr (Some p2)"
    unfolding p2_def using number2 title2 total2 date2 by (rule normalizeRow_record)
  have k: "listing_id p2 = k"
    by (simp add: p2_def)
  have "newDateValue hostParse (r1 ''Sale date'') \<noteq> None"
    using dates gate1 by simp
  with gate1 obtain p1 where n1: "normalizeRow hostParse r1 = Inr (Some p1)"
    using normalizeRow_gate_date by blast
  obtain batch where batch: "csvBatch hostParse (before @ r1 # between @ r2 # after) = Inr batch"
    using csvBatch_no_throw [OF dates] by blast
  from upsert_keeps_later_row [OF batch n1 n2 same later]
  have two: "2 \<le> length (filter (\<lambda>p. listing_id p = k) batch)"
    and one: "recordsFor k (bulkUpsert [] batch) = [p2]"
    by (simp_all add: k)
  have "\<exists>st' effs. handleCSV hostParse st (before @ r1 # between @ r2 # after) upsResp selResp
             = Inr (st', Upsert ''repairs'' batch [''listing_id''] # effs)"
    using batch by (auto simp: handleCSV_def refreshRepairs_def split: option.splits)
  with batch two one show ?thesis
    unfolding p2_def by blast
qed

lemma duplicate_rows_batch:
  "csvBatch noHostFormats ([] @ specRow1 # [specRow3] @ duplicateRow # [])
     = Inr [\<lparr>item_name = ''Widget'', listing_id = ''1001'', price = Fin 10,
              date_sold = ''2024-01-05T00:00:00.000Z'', quantity = Fin 2,
              notes' = None, source = ''csv''\<rparr>,
            \<lparr>item_name = ''Gadget'', listing_id = ''1002'', price = Fin 20,
              date_sold = ''2024-02-01T00:00:00.000Z'', quantity = Fin 1,
              notes' = None, source = ''csv''\<rparr>,
            \<lparr>item_name = ''Widget (relisted)'', listing_id = ''1001'', price = Fin (25 / 2),
              date_sold = ''2024-02-10T00:00:00.000Z'', quantity = Fin 3,
              notes' = None, source = ''csv''\<rparr>]"
  by code_simp

lemma duplicate_rows_dates:
  "newDateValue noHostFormats (specRow1 ''Sale date'') \<noteq> None"
  "newDateValue noHostFormats (specRow3 ''Sale date'') \<noteq> None"
  "newDateValue noHostFormats (duplicateRow ''Sale date'') = Some 1707523200000"
  by code_simp+

lemma duplicateRow_fields:
  "StringToNumber (replaceFirst ''$'' '''' ''$12.50'') = Fin (25 / 2)"
  "StringToNumber ''12.50'' = Fin (25 / 2)"
  "formatISO 1707523200000 = ''2024-02-10T00:00:00.000Z''"
  "StringToNumber ''3'' = Fin 3"
  by code_simp+

theorem duplicate_order_numbers_overwrite_witness:
  "gatePasses specRow1 \<and> gatePasses duplicateRow
   \<and> specRow1 ''Order number'' = duplicateRow ''Order number''
   \<and> list_all (\<lambda>r. newDateValue noHostFormats (r ''Sale date'') \<noteq> None)
        [specRow1, specRow3, duplicateRow]
   \<and> recordsFor ''1001''
        (bulkUpsert [] (projr (csvBatch noHostFormats [specRow1, specRow3, duplicateRow])))
       = [\<lparr>item_name = ''Widget (relisted)'', listing_id = ''1001'', price = Fin (25 / 2),
              date_sold = ''2024-02-10T00:00:00.000Z'', quantity = Fin 3,
              notes' = None, source = ''csv''\<rparr>]
   \<and> length (filter (\<lambda>p. listing_id p = ''1001'')
        (projr (csvBatch noHostFormats [specRow1, specRow3, duplicateRow]))) = 2"
proof -
  have gate1: "gatePasses specRow1" and gate2: "gatePasses duplicateRow"
    by code_simp+
  have number2: "duplicateRow ''Order number'' = Some ''1001''" "''1001'' \<noteq> ''''"
    and title2: "duplicateRow ''Item title'' = Some ''Widget (relisted)''"
      "''Widget (relisted)'' \<noteq> ''''"
    and total2: "duplicateRow ''Total price'' = Some ''$12.50''" "''$12.50'' \<noteq> ''''"
    and quantity2: "duplicateRow ''Quantity'' = Some ''3''"
    by (simp_all add: duplicateRow_def)
  have same: "specRow1 ''Order number'' = duplicateRow ''Order number''"
    by (simp add: specRow1_def duplicateRow_def)
  have dates: "\<forall>r \<in> set ([] @ specRow1 # [specRow3] @ duplicateRow # []).
      gatePasses r \<longrightarrow> newDateValue noHostFormats (r ''Sale date'') \<noteq> None"
    using duplicate_rows_dates by simp
  have later: "\<forall>r \<in> set []. r ''Order number'' \<noteq> duplicateRow ''Order number''"
    by simp
  from duplicate_order_numbers_overwrite
    [OF gate1 number2 title2 total2 duplicate_rows_dates(3) dates same later,
      of exampleState okResponse okResponse]
  obtain batch where b: "csvBatch noHostFormats ([] @ specRow1 # [specRow3] @ duplicateRow # [])
      = Inr batch"
    and r: "recordsFor ''1001'' (bulkUpsert [] batch)
      = [\<lparr>item_name = ''Widget (relisted)'', listing_id = ''1001'',
           price = StringToNumber (replaceFirst ''$'' '''' ''$12.50''),
           date_sold = formatISO 1707523200000,
           quantity = (case duplicateRow ''Quantity'' of
                         None \<Rightarrow> Fin 1
                       | Some q \<Rightarrow> if q = '''' then Fin 1 else StringToNumber q),
           notes' = None, source = ''csv''\<rparr>]"
    by blast
  have c: "csvBatch noHostFormats [specRow1, specRow3, duplicateRow] = Inr batch"
    using b by simp
  have n: "length (filter (\<lambda>p. listing_id p = ''1001'') batch) = 2"
    using b unfolding duplicate_rows_batch by auto
  show ?thesis
    using gate1 gate2 same duplicate_rows_dates r n
    by (simp add: c quantity2 duplicateRow_fields)
qed

section \<open>Properties of the manual entry\<close>

text \<open>
  C7. A manual submission whose insert succeeds resets the form to its default values
  (all texts empty, quantity 1); one whose insert fails shows the store's error message in
  an alert and changes nothing of the state, the form included, and makes no further call.
\<close>

theorem handleSubmit_outcome:
  "(error insResp = None \<longrightarrow>
      form (fst (handleSubmit st insResp selResp))
        = \<lparr>item_name = '''', listing_id = '''', price = '''', date_sold = '''',
           quantity = Fin 1, notes' = ''''\<rparr>)
   \<and> (\<forall>e. error insResp = Some e \<longrightarrow>
          handleSubmit st insResp selResp
            = (st, [Insert ''repairs'' [manualRecord (form st)], Alert (message e)]))"
  by (auto simp: handleSubmit_def refreshRepairs_def initialForm_def split: option.splits)

theorem handleSubmit_outcome_witness:
  "error okResponse = None
   \<and> form (fst (handleSubmit exampleState okResponse okResponse))
        = \<lparr>item_name = '''', listing_id = '''', price = '''', date_sold = '''',
           quantity = Fin 1, notes' = ''''\<rparr>
   \<and> error failedResponse = Some \<lparr>message = ''duplicate key''\<rparr>
   \<and> handleSubmit exampleState failedResponse okResponse
        = (exampleState, [Insert ''repairs'' [manualRecord exampleForm], Alert ''duplicate key''])"
  using handleSubmit_outcome [of okResponse exampleState okResponse]
        handleSubmit_outcome [of failedResponse exampleState okResponse]
  by (simp add: okResponse_def failedResponse_def exampleState_def)

section \<open>Properties of the session guard\<close>

text \<open>
  C8. On activation without a session the guard navigates to the login view and issues
  no listing query, whatever the store would answer, and the state is unchanged; with a
  session it issues the listing query, once.
\<close>

theorem init_session_guard:
  "(session = None \<longrightarrow>
      init st session resp = (st, [GetSession, Navigate ''/login''])
      \<and> (\<forall>q. Select q \<notin> set (snd (init st session resp))))
   \<and> (session \<noteq> None \<longrightarrow>
      filter (\<lambda>e. case e of Select q \<Rightarrow> True | _ \<Rightarrow> False) (snd (init st session resp))
        = [Select listingQuery])"
  by (auto simp: init_def split: option.splits)

theorem init_session_guard_witness:
  "init exampleState (None :: unit option) okResponse
      = (exampleState, [GetSession, Navigate ''/login''])
   \<and> Select listingQuery \<notin> set (snd (init exampleState (None :: unit option) okResponse))
   \<and> filter (\<lambda>e. case e of Select q \<Rightarrow> True | _ \<Rightarrow> False)
        (snd (init exampleState (Some ()) okResponse)) = [Select listingQuery]"
  using init_session_guard [of "None :: unit option" exampleState okResponse]
        init_session_guard [of "Some ()" exampleState okResponse]
  by simp

section \<open>Properties of the period filter\<close>

lemma periodFilters_example:
  "periodFilters utcZone 1710504000000 ''lastMonth''
     = Inr [Gte ''date_sold'' ''2024-02-01T00:00:00.000Z'',
            Lte ''date_sold'' ''2024-02-29T00:00:00.000Z'']"
  by code_simp

text \<open>
  C6. \<^verbatim>\<open>filterRepairs("lastMonth")\<close> queries with two inclusive bounds on
  \<open>date_sold\<close>: from the local time 00:00:00.000 of day 1 of the previous calendar
  month to the local time 00:00:00.000 of the last day of that month, which is day 0 of
  the current month; each bound is sent as the ISO text of the UTC instant of that local
  time. The current year is taken from 100 to 275000 (\<^verbatim>\<open>new Date(y, m, d)\<close> reads
  a year below 100 as 19xx, and a Date ends in the year 275760) and the zone offset within
  a day. In a UTC host on 2024-03-15 the bounds are 2024-02-01T00:00:00.000Z and
  2024-02-29T00:00:00.000Z.
\<close>

theorem lastMonth_bounds:
  assumes year: "100 \<le> getFullYear tza now" "getFullYear tza now \<le> 275000"
    and zone: "\<forall>t isUTC. \<bar>tza t isUTC\<bar> \<le> msPerDay"
    and prev: "previousMonth (getFullYear tza now, getMonth tza now) = (py, pm)"
    and first: "startLocal = MakeDate (MakeDay py pm 1) 0"
    and last: "endLocal = MakeDate (MakeDay py pm (DaysInMonth py pm)) 0"
  shows "periodFilters tza now ''lastMonth''
           = Inr [Gte ''date_sold'' (formatISO (UTC tza startLocal)),
                  Lte ''date_sold'' (formatISO (UTC tza endLocal))]
       \<and> calendarFields startLocal = (py, pm, 1, 0, 0, 0, 0)
       \<and> calendarFields endLocal = (py, pm, DaysInMonth py pm, 0, 0, 0, 0)
       \<and> endLocal = MakeDate (MakeDay (getFullYear tza now) (getMonth tza now) 0) 0
       \<and> filterRepairs tza now st ''lastMonth'' resp
           = Inr (st\<lparr>repairs := dataOrEmpty resp\<rparr>,
                  [Select \<lparr>table = ''repairs'', columns = ''*'',
                     filters = [Gte ''date_sold'' (formatISO (UTC tza startLocal)),
                                Lte ''date_sold'' (formatISO (UTC tza endLocal))],
                     order_by = Some (''date_sold'', False)\<rparr>])"
proof -
  define y where "y = getFullYear tza now"
  define m where "m = getMonth tza now"
  have m: "0 \<le> m" "m \<le> 11"
    using MonthFromTime_range [of "LocalTime tza now"] by (simp_all add: m_def getMonth_def)
  have p: "previousMonth (y, m) = (py, pm)"
    using prev by (simp add: y_def m_def)
  note v = previousMonth_valid [OF m p]
  have py: "99 \<le> py" "py \<le> 275000"
    using p year by (auto simp: previousMonth_def y_def split: if_splits)
  have s: "MakeDay y (m - 1) 1 = MakeDay py pm 1"
    using m p by (rule MakeDay_previous_first)
  have e: "MakeDay y m 0 = MakeDay py pm (DaysInMonth py pm)"
    using m p by (rule MakeDay_day_zero)
  have zs: "\<bar>tza startLocal False\<bar> \<le> msPerDay" and ze: "\<bar>tza endLocal False\<bar> \<le> msPerDay"
    using zone by simp_all
  have "newDateYMD tza y (m - 1) 1 = Some (UTC tza startLocal)"
    using TimeClip_local_midnight [OF v(1) py zs [unfolded first]] year(1)
    by (simp add: newDateYMD_plain_year y_def [symmetric] s first UTC_def)
  moreover have "newDateYMD tza y m 0 = Some (UTC tza endLocal)"
    using TimeClip_local_midnight [OF v(2) py ze [unfolded last]] year(1)
    by (simp add: newDateYMD_plain_year y_def [symmetric] e last UTC_def)
  ultimately have f: "periodFilters tza now ''lastMonth''
           = Inr [Gte ''date_sold'' (formatISO (UTC tza startLocal)),
                  Lte ''date_sold'' (formatISO (UTC tza endLocal))]"
    by (simp add: periodFilters_def toISOString_def y_def m_def)
  then have "filterRepairs tza now st ''lastMonth'' resp
           = Inr (st\<lparr>repairs := dataOrEmpty resp\<rparr>,
                  [Select \<lparr>table = ''repairs'', columns = ''*'',
                     filters = [Gte ''date_sold'' (formatISO (UTC tza startLocal)),
                                Lte ''date_sold'' (formatISO (UTC tza endLocal))],
                     order_by = Some (''date_sold'', False)\<rparr>])"
    by (simp add: filterRepairs_def)
  moreover note f
  moreover have "calendarFields startLocal = (py, pm, 1, 0, 0, 0, 0)"
    unfolding first using v(1) by (rule calendarFields_midnight)
  moreover have "calendarFields endLocal = (py, pm, DaysInMonth py pm, 0, 0, 0, 0)"
    unfolding last using v(2) by (rule calendarFields_midnight)
  moreover have "endLocal = MakeDate (MakeDay (getFullYear tza now) (getMonth tza now) 0) 0"
    using e by (simp add: last y_def m_def)
  ultimately show ?thesis
    by simp
qed

theorem lastMonth_bounds_witness:
  "getFullYear utcZone 1710504000000 = 2024 \<and> getMonth utcZone 1710504000000 = 2
   \<and> (\<forall>t isUTC. \<bar>utcZone t isUTC\<bar> \<le> msPerDay)
   \<and> previousMonth (2024, 2) = (2024, 1) \<and> DaysInMonth 2024 1 = 29
   \<and> periodFilters utcZone 1710504000000 ''lastMonth''
       = Inr [Gte ''date_sold'' ''2024-02-01T00:00:00.000Z'',
              Lte ''date_sold'' ''2024-02-29T00:00:00.000Z'']
   \<and> calendarFields 1706745600000 = (2024, 1, 1, 0, 0, 0, 0)
   \<and> calendarFields 1709164800000 = (2024, 1, 29, 0, 0, 0, 0)"
proof -
  have y: "getFullYear utcZone 1710504000000 = 2024"
    and m: "getMonth utcZone 1710504000000 = 2"
    by code_simp+
  have year: "100 \<le> getFullYear utcZone 1710504000000"
    "getFullYear utcZone 1710504000000 \<le> 275000"
    by (simp_all add: y)
  have zone: "\<forall>t isUTC. \<bar>utcZone t isUTC\<bar> \<le> msPerDay"
    by (simp add: utcZone_def msPerDay_def)
  have prev: "previousMonth (getFullYear utcZone 1710504000000, getMonth utcZone 1710504000000)
      = (2024, 1)"
    by (simp add: y m previousMonth_def)
  have d: "DaysInMonth 2024 1 = 29"
    by code_simp
  have first: "1706745600000 = MakeDate (MakeDay 2024 1 1) 0"
    by code_simp
  have last: "1709164800000 = MakeDate (MakeDay 2024 1 (DaysInMonth 2024 1)) 0"
    by code_simp
  from lastMonth_bounds [OF year zone prev first last, of exampleState okResponse]
  show ?thesis
    using y m zone d by (simp add: previousMonth_def periodFilters_example)
qed

text \<open>
  C9. For every period tag, when the store answers the query of \<^verbatim>\<open>filterRepairs\<close>
  with an error (\<^verbatim>\<open>data\<close> is \<^verbatim>\<open>null\<close>), the displayed list becomes empty; the
  only effect of the handler is the query itself: no alert, nothing logged.
\<close>

theorem filterRepairs_error_empties_list:
  assumes "data resp = None" and "periodFilters tza now period = Inr fs"
  shows "filterRepairs tza now st period resp
           = Inr (st\<lparr>repairs := []\<rparr>,
                  [Select \<lparr>table = ''repairs'', columns = ''*'', filters = fs,
                            order_by = Some (''date_sold'', False)\<rparr>])"
  using assms by (simp add: filterRepairs_def dataOrEmpty_def)

theorem filterRepairs_error_empties_list_witness:
  "data failedResponse = None
   \<and> filterRepairs utcZone 1710504000000 exampleState ''lastMonth'' failedResponse
       = Inr (exampleState\<lparr>repairs := []\<rparr>,
              [Select \<lparr>table = ''repairs'', columns = ''*'',
                 filters = [Gte ''date_sold'' ''2024-02-01T00:00:00.000Z'',
                            Lte ''date_sold'' ''2024-02-29T00:00:00.000Z''],
                 order_by = Some (''date_sold'', False)\<rparr>])"
proof -
  have d: "data failedResponse = None"
    by (simp add: failedResponse_def)
  show ?thesis
    using d filterRepairs_error_empties_list [OF d periodFilters_example, of exampleState]
    by simp
qed

section \<open>Properties of the whole page\<close>

text \<open>
  No handler changes the quantity of the form: each step keeps it at 1, and a record
  that a step inserts carries the quantity of the form.
\<close>

lemma insertedRecords_append:
  "insertedRecords (xs @ ys) = insertedRecords xs @ insertedRecords ys"
  by (induction xs rule: insertedRecords.induct) auto

lemma step_quantity:
  assumes "quantity (form st) = Fin 1" and "step hostParse tza st ev = (st', effs)"
  shows "quantity (form st') = Fin 1 \<and> (\<forall>r \<in> set (insertedRecords effs). quantity r = Fin 1)"
proof (cases ev)
  case (Activate session resp)
  with assms show ?thesis
    by (auto simp: init_def split: option.splits)
next
  case (Submit insResp selResp)
  with assms show ?thesis
    by (auto simp: handleSubmit_def refreshRepairs_def manualRecord_def initialForm_def
        split: option.splits)
next
  case (UploadCSV results upsResp selResp)
  with assms show ?thesis
    by (auto simp: handleCSV_def refreshRepairs_def split: option.splits sum.splits)
next
  case (FilterPeriod now period resp)
  with assms show ?thesis
    by (auto simp: filterRepairs_def split: sum.splits)
qed (use assms in \<open>auto simp: changeItemName_def changeListingId_def changePrice_def
      changeDateSold_def changeNotes_def logout_def\<close>)

lemma run_quantity:
  assumes "quantity (form st) = Fin 1" and "run hostParse tza st evs = (st', effs)"
  shows "quantity (form st') = Fin 1 \<and> (\<forall>r \<in> set (insertedRecords effs). quantity r = Fin 1)"
  using assms
proof (induction evs arbitrary: st st' effs)
  case Nil
  then show ?case by simp
next
  case (Cons ev evs)
  obtain st1 effs1 where s: "step hostParse tza st ev = (st1, effs1)"
    by (cases "step hostParse tza st ev")
  obtain st2 effs2 where r: "run hostParse tza st1 evs = (st2, effs2)"
    by (cases "run hostParse tza st1 evs")
  from s r Cons.prems(2) have e: "st' = st2" "effs = effs1 @ effs2"
    by simp_all
  from step_quantity [OF Cons.prems(1) s]
  have q1: "quantity (form st1) = Fin 1"
    and i1: "\<forall>r \<in> set (insertedRecords effs1). quantity r = Fin 1"
    by simp_all
  from Cons.IH [OF q1 r] i1 e show ?case
    by (auto simp: insertedRecords_append)
qed

text \<open>
  C10. Every record written by the manual entry carries quantity 1: the form starts
  with quantity 1, and after any sequence of events (typing, submissions that succeed or
  fail, CSV uploads, filters, logout, whatever the store answers) the form still has
  quantity 1 and every record passed to \<^verbatim>\<open>.insert\<close> has quantity 1.
\<close>

theorem manual_records_have_quantity_one:
  "quantity (form (initialState :: 'r ui_state)) = Fin 1
   \<and> quantity (form (fst (run hostParse tza (initialState :: 'r ui_state) evs))) = Fin 1
   \<and> (\<forall>r \<in> set (insertedRecords (snd (run hostParse tza (initialState :: 'r ui_state) evs))).
         quantity r = Fin 1)"
proof -
  have q0: "quantity (form (initialState :: 'r ui_state)) = Fin 1"
    by (simp add: initialState_def initialForm_def)
  obtain st' effs where r: "run hostParse tza (initialState :: 'r ui_state) evs = (st', effs)"
    by (cases "run hostParse tza (initialState :: 'r ui_state) evs")
  from run_quantity [OF q0 r] q0 r show ?thesis
    by simp
qed

lemma exampleEvents_inserted:
  "insertedRecords (snd (run noHostFormats utcZone initialState exampleEvents))
     = [\<lparr>item_name = ''Phone screen'', listing_id = '''',
          price = Fin (5626684784446013 / 281474976710656), date_sold = '''',
          quantity = Fin 1, notes' = Some '''', source = ''manual''\<rparr>,
        \<lparr>item_name = ''Phone screen'', listing_id = '''',
          price = Fin (5626684784446013 / 281474976710656), date_sold = '''',
          quantity = Fin 1, notes' = Some ''cracked'', source = ''manual''\<rparr>]"
  by code_simp

theorem manual_records_have_quantity_one_witness:
  "insertedRecords (snd (run noHostFormats utcZone initialState exampleEvents))
     = [\<lparr>item_name = ''Phone screen'', listing_id = '''',
          price = Fin (5626684784446013 / 281474976710656), date_sold = '''',
          quantity = Fin 1, notes' = Some '''', source = ''manual''\<rparr>,
        \<lparr>item_name = ''Phone screen'', listing_id = '''',
          price = Fin (5626684784446013 / 281474976710656), date_sold = '''',
          quantity = Fin 1, notes' = Some ''cracked'', source = ''manual''\<rparr>]
   \<and> list_all (\<lambda>r. quantity r = Fin 1)
        (insertedRecords (snd (run noHostFormats utcZone initialState exampleEvents)))"
  using manual_records_have_quantity_one [of noHostFormats utcZone exampleEvents]
  by (simp add: exampleEvents_inserted list_all_iff)

end
